theory Spec2Isabelle
  imports Complex_Main
begin

section \<open>The Snowball Earth energy balance model\<close>

text \<open>
  A shallow embedding of \<^verbatim>\<open>snowball_earth_model.py\<close>. Python's floats and numpy's
  float64 values are embedded as the real numbers: every arithmetic operation is exact,
  there is no rounding, no infinity and no NaN. Two parts of the embedding go
  further, where a statement about the program depends on it: \<open>albedo_double\<close> evaluates
  the albedo with the rounding of double precision, and
  \<open>find_equilibrium_temperature_run\<close> is a call of the solver with the exception that
  the overflow of a power raises and with the state of the module. The iteration bound
  \<^verbatim>\<open>max_iterations\<close> is a Python \<^verbatim>\<open>int\<close>, embedded as \<open>int\<close>.
\<close>

subsection \<open>Physical constants\<close>

definition STEFAN_BOLTZMANN :: real where
  "STEFAN_BOLTZMANN = 5.67 / 10 ^ 8"

definition SOLAR_CONSTANT :: real where
  "SOLAR_CONSTANT = 1365"

subsection \<open>numpy operations\<close>

text \<open>\<^verbatim>\<open>np.clip(a, a_min, a_max)\<close> is \<^verbatim>\<open>minimum(maximum(a, a_min), a_max)\<close>.\<close>

definition clip :: "real \<Rightarrow> real \<Rightarrow> real \<Rightarrow> real" where
  "clip a a_min a_max = min (max a a_min) a_max"

subsection \<open>Feedback functions\<close>

definition albedo :: "real \<Rightarrow> real" where
  "albedo temperature =
     (let T_freeze = 273.15;
          alpha_ice = 0.6;
          alpha_water = 0.3;
          alpha = alpha_water
                  + (alpha_ice - alpha_water) * 0.5 * (1 - tanh ((temperature - T_freeze) / 10))
      in alpha)"

definition greenhouse_effect :: "real \<Rightarrow> real" where
  "greenhouse_effect temperature =
     (let epsilon_base = 0.61;
          epsilon_sensitivity = 0.0001;
          epsilon = epsilon_base + epsilon_sensitivity * (temperature - 273.15);
          epsilon = clip epsilon 0.5 0.8
      in epsilon)"

subsection \<open>The albedo in double precision\<close>

text \<open>
  Python's \<^verbatim>\<open>float\<close> and numpy's \<^verbatim>\<open>float64\<close> are IEEE 754 binary64 numbers: every
  literal and every result of an arithmetic operation is rounded to the nearest number
  with a significand of 53 bits, a tie going to the even significand.
  \<open>round_half_even\<close> rounds a real to the nearest integer in that way, and
  \<open>double_round x\<close> rounds \<open>x\<close> to 53 significant bits: with \<open>e\<close> the binary exponent of
  \<open>x\<close>, to the nearest multiple of \<open>2 powr (e - 52)\<close>. The exponent is not bounded here:
  for a temperature that is a double, none of the values that occur in \<^verbatim>\<open>albedo\<close>
  is subnormal or overflows.
\<close>

definition round_half_even :: "real \<Rightarrow> int" where
  "round_half_even x =
     (let f = \<lfloor>x\<rfloor>; d = x - of_int f
      in if d < 1 / 2 then f else if 1 / 2 < d then f + 1
         else if even f then f else f + 1)"

definition double_round :: "real \<Rightarrow> real" where
  "double_round x =
     (if x = 0 then 0
      else (let e = \<lfloor>log 2 \<bar>x\<bar>\<rfloor>;
                u = 2 powr (of_int e - 52)
            in u * of_int (round_half_even (x / u))))"

text \<open>
  \<^verbatim>\<open>np.tanh\<close> on a double, taken as the hyperbolic tangent rounded to the nearest
  double. The results below use it at 0, where it is 0, for arguments of magnitude 22 and
  more, where it has become 1 or -1, and through the bound 1 on its magnitude.
\<close>

definition tanh_double :: "real \<Rightarrow> real" where
  "tanh_double x = double_round (tanh x)"

text \<open>
  \<^verbatim>\<open>albedo\<close> as the interpreter evaluates it on a double: its three literals and the
  literals 0.5 and 10 are rounded, and so is the result of each operation, in the order
  in which the expression is evaluated (the product from left to right).
\<close>

definition albedo_double :: "real \<Rightarrow> real" where
  "albedo_double temperature =
     (let T_freeze = double_round 273.15;
          alpha_ice = double_round 0.6;
          alpha_water = double_round 0.3
      in double_round (alpha_water
           + double_round
               (double_round (double_round (alpha_ice - alpha_water) * double_round 0.5)
                * double_round (1 - tanh_double
                    (double_round (double_round (temperature - T_freeze) / double_round 10))))))"

subsection \<open>Energy balance\<close>

definition energy_balance :: "real \<Rightarrow> real \<Rightarrow> real" where
  "energy_balance temperature solar_multiplier =
     (let S = SOLAR_CONSTANT * solar_multiplier;
          alpha = albedo temperature;
          epsilon = greenhouse_effect temperature;
          energy_in = (1 - alpha) * S / 4;
          energy_out = epsilon * STEFAN_BOLTZMANN * temperature ^ 4;
          balance = energy_in - energy_out
      in balance)"

subsection \<open>Equilibrium solver\<close>

text \<open>
  The body of \<^verbatim>\<open>for i in range(max_iterations)\<close>, with the number of iterations that
  remain as the recursion argument. \<^verbatim>\<open>dt\<close> is the local constant 0.1.
\<close>

fun solver_loop :: "nat \<Rightarrow> real \<Rightarrow> real \<Rightarrow> real \<Rightarrow> real \<Rightarrow> real \<times> bool" where
  "solver_loop 0 dt temperature solar_multiplier tolerance = (temperature, False)"
| "solver_loop (Suc k) dt temperature solar_multiplier tolerance =
     (let balance = energy_balance temperature solar_multiplier
      in if \<bar>balance\<bar> < tolerance then (temperature, True)
         else solver_loop k dt (clip (temperature + dt * balance) 150 400)
                solar_multiplier tolerance)"

text \<open>\<^verbatim>\<open>range(n)\<close> is empty for \<open>n \<le> 0\<close>, which \<open>nat\<close> gives.\<close>

definition find_equilibrium_temperature :: "real \<Rightarrow> real \<Rightarrow> int \<Rightarrow> real \<Rightarrow> real \<times> bool" where
  "find_equilibrium_temperature initial_temp solar_multiplier max_iterations tolerance =
     (let temperature = initial_temp;
          dt = 0.1
      in solver_loop (nat max_iterations) dt temperature solar_multiplier tolerance)"

text \<open>
  The update of one iteration that does not return: \<^verbatim>\<open>temperature += dt * balance\<close>
  followed by \<^verbatim>\<open>temperature = np.clip(temperature, 150, 400)\<close>, with \<^verbatim>\<open>dt = 0.1\<close>.
\<close>

definition solver_step :: "real \<Rightarrow> real \<Rightarrow> real" where
  "solver_step solar_multiplier temperature =
     clip (temperature + 0.1 * energy_balance temperature solar_multiplier) 150 400"

text \<open>
  The same loop, recording in \<open>calls\<close> the temperatures at which \<^verbatim>\<open>energy_balance\<close>
  is evaluated, in order.
\<close>

fun solver_loop_traced ::
  "nat \<Rightarrow> real \<Rightarrow> real \<Rightarrow> real \<Rightarrow> real \<Rightarrow> real list \<Rightarrow> (real \<times> bool) \<times> real list" where
  "solver_loop_traced 0 dt temperature solar_multiplier tolerance calls =
     ((temperature, False), calls)"
| "solver_loop_traced (Suc k) dt temperature solar_multiplier tolerance calls =
     (let balance = energy_balance temperature solar_multiplier;
          calls = calls @ [temperature]
      in if \<bar>balance\<bar> < tolerance then ((temperature, True), calls)
         else solver_loop_traced k dt (clip (temperature + dt * balance) 150 400)
                solar_multiplier tolerance calls)"

definition find_equilibrium_temperature_traced ::
  "real \<Rightarrow> real \<Rightarrow> int \<Rightarrow> real \<Rightarrow> (real \<times> bool) \<times> real list" where
  "find_equilibrium_temperature_traced initial_temp solar_multiplier max_iterations tolerance =
     (let temperature = initial_temp;
          dt = 0.1
      in solver_loop_traced (nat max_iterations) dt temperature solar_multiplier tolerance [])"

subsection \<open>Calls of the solver, with exceptions and module state\<close>

text \<open>
  What the functions over the reals leave out of a call: the exception that Python can
  raise, and the state outside the function that a call could read or write.

  The source has no \<^verbatim>\<open>raise\<close> statement and checks none of its arguments. Of its
  operations on finite floats one raises: \<^verbatim>\<open>temperature**4\<close> on a Python \<^verbatim>\<open>float\<close>
  raises \<^verbatim>\<open>OverflowError\<close> when the power is outside the range of a double, that is
  when its magnitude is \<open>2 ^ 1024 - 2 ^ 970\<close> or more and rounds to infinity. Sums,
  differences and products of floats return infinity instead of raising, and
  \<^verbatim>\<open>np.tanh\<close> and \<^verbatim>\<open>np.clip\<close> return finite values. The initial temperature is a Python
  \<^verbatim>\<open>float\<close>, as in every call of the repository; after the first update the temperature
  lies between 150 and 400, where the power is far from the limit.
\<close>

datatype py_exception = OverflowError

definition double_overflow :: "real \<Rightarrow> bool" where
  "double_overflow y \<longleftrightarrow> 2 ^ 1024 - 2 ^ 970 \<le> \<bar>y\<bar>"

definition float_pow4 :: "real \<Rightarrow> py_exception + real" where
  "float_pow4 x = (if double_overflow (x ^ 4) then Inl OverflowError else Inr (x ^ 4))"

text \<open>
  The state of the module: its two global constants, which \<^verbatim>\<open>energy_balance\<close> reads by
  name at each call, and the state of numpy's global random generator, which the module
  imports with numpy. At import the constants have the values assigned at the top of
  the file; the generator's state is arbitrary.
\<close>

record module_state =
  SOLAR_CONSTANT_global :: real
  STEFAN_BOLTZMANN_global :: real
  np_random_state :: nat

definition module_state_at_import :: "nat \<Rightarrow> module_state" where
  "module_state_at_import seed =
     \<lparr>SOLAR_CONSTANT_global = SOLAR_CONSTANT, STEFAN_BOLTZMANN_global = STEFAN_BOLTZMANN,
      np_random_state = seed\<rparr>"

text \<open>
  \<^verbatim>\<open>energy_balance\<close> and the solver as state transformers: each returns its outcome, an
  exception or a value, and the state it leaves. The statements are those of the source,
  in its order; none of them assigns to a global or draws a random number, so the state
  is passed on as it is.
\<close>

definition energy_balance_run ::
  "module_state \<Rightarrow> real \<Rightarrow> real \<Rightarrow> (py_exception + real) \<times> module_state" where
  "energy_balance_run s temperature solar_multiplier =
     (let S = SOLAR_CONSTANT_global s * solar_multiplier;
          alpha = albedo temperature;
          epsilon = greenhouse_effect temperature;
          energy_in = (1 - alpha) * S / 4
      in case float_pow4 temperature of
           Inl e \<Rightarrow> (Inl e, s)
         | Inr p \<Rightarrow>
             (let energy_out = epsilon * STEFAN_BOLTZMANN_global s * p;
                  balance = energy_in - energy_out
              in (Inr balance, s)))"

fun solver_loop_run ::
  "nat \<Rightarrow> real \<Rightarrow> module_state \<Rightarrow> real \<Rightarrow> real \<Rightarrow> real
   \<Rightarrow> (py_exception + real \<times> bool) \<times> module_state" where
  "solver_loop_run 0 dt s temperature solar_multiplier tolerance =
     (Inr (temperature, False), s)"
| "solver_loop_run (Suc k) dt s temperature solar_multiplier tolerance =
     (case energy_balance_run s temperature solar_multiplier of
        (Inl e, s') \<Rightarrow> (Inl e, s')
      | (Inr balance, s') \<Rightarrow>
          if \<bar>balance\<bar> < tolerance then (Inr (temperature, True), s')
          else solver_loop_run k dt s' (clip (temperature + dt * balance) 150 400)
                 solar_multiplier tolerance)"

definition find_equilibrium_temperature_run ::
  "module_state \<Rightarrow> real \<Rightarrow> real \<Rightarrow> int \<Rightarrow> real
   \<Rightarrow> (py_exception + real \<times> bool) \<times> module_state" where
  "find_equilibrium_temperature_run s initial_temp solar_multiplier max_iterations tolerance =
     (let temperature = initial_temp;
          dt = 0.1
      in solver_loop_run (nat max_iterations) dt s temperature solar_multiplier tolerance)"

subsection \<open>The solver as the specification describes it\<close>

text \<open>
  The specification's algorithm, step by step: \<open>T := initial_temp\<close>; repeat up to
  \<open>max_iterations\<close> times: compute the balance at \<open>T\<close>, return \<open>(T, true)\<close> if its absolute
  value is below the tolerance, otherwise add a tenth of the balance to \<open>T\<close> and clamp
  \<open>T\<close> into the interval from 150 to 400; when the repetitions are used up, return
  \<open>(T, false)\<close>. One repetition is a step on a state that holds \<open>T\<close> and the value
  returned, if any; a repetition after a return does nothing.
\<close>

definition spec_clamp :: "real \<Rightarrow> real" where
  "spec_clamp T = (if T < 150 then 150 else if 400 < T then 400 else T)"

record spec_state =
  temp :: real
  returned :: "(real \<times> bool) option"

definition spec_iteration :: "real \<Rightarrow> real \<Rightarrow> spec_state \<Rightarrow> spec_state" where
  "spec_iteration solar_multiplier tolerance s =
     (case returned s of
        Some r \<Rightarrow> s
      | None \<Rightarrow>
          (let balance = energy_balance (temp s) solar_multiplier
           in if \<bar>balance\<bar> < tolerance then s\<lparr>returned := Some (temp s, True)\<rparr>
              else s\<lparr>temp := spec_clamp (temp s + 0.1 * balance)\<rparr>))"

definition spec_find_equilibrium_temperature :: "real \<Rightarrow> real \<Rightarrow> int \<Rightarrow> real \<Rightarrow> real \<times> bool" where
  "spec_find_equilibrium_temperature initial_temp solar_multiplier max_iterations tolerance =
     (let s = (spec_iteration solar_multiplier tolerance ^^ nat max_iterations)
                \<lparr>temp = initial_temp, returned = None\<rparr>
      in case returned s of Some r \<Rightarrow> r | None \<Rightarrow> (temp s, False))"

subsection \<open>Experiment sweep\<close>

text \<open>
  \<^verbatim>\<open>np.linspace(start, stop, num)\<close> with its default \<^verbatim>\<open>endpoint=True\<close>: \<open>num\<close> samples
  \<open>start + i * step\<close> with \<open>step = (stop - start) / (num - 1)\<close>, the last one set to
  \<open>stop\<close> when there is more than one sample.
\<close>

definition linspace :: "real \<Rightarrow> real \<Rightarrow> nat \<Rightarrow> real list" where
  "linspace start stop num =
     (let dv = num - 1;
          delta = stop - start;
          step = delta / real dv;
          y = map (\<lambda>i. real i * step + start) [0..<num]
      in if 1 < num then y[num - 1 := stop] else y)"

text \<open>
  The loop \<^verbatim>\<open>for solar_mult in solar_multipliers\<close> of \<^verbatim>\<open>run_snowball_experiment\<close>,
  appending to \<^verbatim>\<open>equilibrium_temps\<close>. Both solver calls use the defaults
  \<^verbatim>\<open>max_iterations=1000\<close> and \<^verbatim>\<open>tolerance=0.01\<close>. The missing value \<^verbatim>\<open>np.nan\<close> is \<open>None\<close>.
\<close>

fun sweep_loop :: "real list \<Rightarrow> real option list \<Rightarrow> real option list" where
  "sweep_loop [] equilibrium_temps = equilibrium_temps"
| "sweep_loop (solar_mult # rest) equilibrium_temps =
     (let (T_warm, converged_warm) = find_equilibrium_temperature 288 solar_mult 1000 0.01;
          (T_cold, converged_cold) = find_equilibrium_temperature 230 solar_mult 1000 0.01
      in if converged_warm then sweep_loop rest (equilibrium_temps @ [Some T_warm])
         else if converged_cold then sweep_loop rest (equilibrium_temps @ [Some T_cold])
         else sweep_loop rest (equilibrium_temps @ [None]))"

text \<open>A comparison with \<^verbatim>\<open>nan\<close> on the left is false.\<close>

definition less_nan :: "real option \<Rightarrow> real \<Rightarrow> bool" where
  "less_nan x y = (case x of None \<Rightarrow> False | Some v \<Rightarrow> v < y)"

text \<open>\<^verbatim>\<open>np.where(bs)[0]\<close>: the indices at which \<open>bs\<close> is true, ascending.\<close>

definition where_true :: "bool list \<Rightarrow> nat list" where
  "where_true bs = filter (\<lambda>i. bs ! i) [0..<length bs]"

text \<open>
  The threshold block at the end of \<^verbatim>\<open>run_snowball_experiment\<close>; the result is the
  multiplier that is printed, \<open>None\<close> when nothing is printed.
\<close>

definition critical_solar_multiplier :: "real list \<Rightarrow> real option list \<Rightarrow> real option" where
  "critical_solar_multiplier solar_multipliers equilibrium_temps =
     (let below_freezing = map (\<lambda>t. less_nan t 273.15) equilibrium_temps
      in if list_ex (\<lambda>b. b) below_freezing
         then (let critical_idx = hd (where_true below_freezing);
                   critical_solar = solar_multipliers ! critical_idx
               in Some critical_solar)
         else None)"

text \<open>
  The experiment, without its printing and plotting: the series of equilibrium
  temperatures and the critical multiplier reported.
\<close>

definition run_snowball_experiment :: "real option list \<times> real option" where
  "run_snowball_experiment =
     (let solar_multipliers = linspace 0.85 1.05 20;
          equilibrium_temps = sweep_loop solar_multipliers []
      in (equilibrium_temps, critical_solar_multiplier solar_multipliers equilibrium_temps))"

text \<open>The value the sweep records for one multiplier, written as one expression.\<close>

definition chosen_equilibrium :: "real \<Rightarrow> real option" where
  "chosen_equilibrium solar_mult =
     (if snd (find_equilibrium_temperature 288 solar_mult 1000 0.01)
      then Some (fst (find_equilibrium_temperature 288 solar_mult 1000 0.01))
      else if snd (find_equilibrium_temperature 230 solar_mult 1000 0.01)
      then Some (fst (find_equilibrium_temperature 230 solar_mult 1000 0.01))
      else None)"

subsection \<open>The energy balance where the emissivity clip is inactive\<close>

text \<open>
  Between 150 K and 400 K the clip of \<^verbatim>\<open>greenhouse_effect\<close> does not bind, and at solar
  multiplier 1 the energy balance is the smooth function \<open>balance_unclipped\<close>, whose
  derivative is \<open>balance_slope\<close>. Both serve the convergence proof only.
\<close>

definition balance_unclipped :: "real \<Rightarrow> real" where
  "balance_unclipped T =
     (7 / 10 - 3 / 20 * (1 - tanh ((T - 5463 / 20) / 10))) * (1365 / 4)
     - (61 / 100 + (T - 5463 / 20) / 10000) * (567 / 10 ^ 10) * T ^ 4"

definition balance_slope :: "real \<Rightarrow> real" where
  "balance_slope T =
     4095 / 800 * (1 - (tanh ((T - 5463 / 20) / 10))\<^sup>2)
     - (1 / 10000 * (567 / 10 ^ 10) * T ^ 4
        + (61 / 100 + (T - 5463 / 20) / 10000) * (567 / 10 ^ 10) * (4 * T ^ 3))"

section \<open>Feedback functions: formulas and ranges\<close>

lemma clip_bounds: "lo \<le> hi \<Longrightarrow> lo \<le> clip a lo hi \<and> clip a lo hi \<le> hi"
  by (simp add: clip_def min_def max_def)

lemma clip_mono: "a \<le> b \<Longrightarrow> clip a lo hi \<le> clip b lo hi"
  by (simp add: clip_def min_def max_def)

lemma clip_inside: "lo \<le> a \<Longrightarrow> a \<le> hi \<Longrightarrow> clip a lo hi = a"
  by (simp add: clip_def min_def max_def)

lemma albedo_formula: "albedo T = 3 / 10 + 3 / 20 * (1 - tanh ((T - 273.15) / 10))"
  by (simp add: albedo_def Let_def)

lemma albedo_gt: "3 / 10 < albedo T"
proof -
  define t where "t = tanh ((T - 273.15) / 10)"
  have "t < 1" unfolding t_def by (rule tanh_real_lt_1)
  moreover have "albedo T = 3 / 10 + 3 / 20 * (1 - t)"
    unfolding t_def by (rule albedo_formula)
  ultimately show ?thesis by argo
qed

lemma albedo_lt: "albedo T < 6 / 10"
proof -
  define t where "t = tanh ((T - 273.15) / 10)"
  have "- 1 < t" unfolding t_def by (rule tanh_real_gt_neg1)
  moreover have "albedo T = 3 / 10 + 3 / 20 * (1 - t)"
    unfolding t_def by (rule albedo_formula)
  ultimately show ?thesis by argo
qed

lemma greenhouse_effect_bounds: "1 / 2 \<le> greenhouse_effect T \<and> greenhouse_effect T \<le> 8 / 10"
  using clip_bounds [of "0.5" "0.8"] by (simp add: greenhouse_effect_def Let_def)

subsection \<open>Rounding to double precision\<close>

lemma round_half_even_of_int [simp]: "round_half_even (of_int k) = k"
  by (simp add: round_half_even_def)

lemma round_half_even_floor:
  "\<lfloor>x\<rfloor> \<le> round_half_even x \<and> round_half_even x \<le> \<lfloor>x\<rfloor> + 1"
  by (simp add: round_half_even_def Let_def)

lemma round_half_even_mono:
  assumes "a \<le> b"
  shows "round_half_even a \<le> round_half_even b"
proof (cases "\<lfloor>a\<rfloor> = \<lfloor>b\<rfloor>")
  case True
  define f where "f = \<lfloor>b\<rfloor>"
  define da where "da = a - of_int f"
  define db where "db = b - of_int f"
  have le: "da \<le> db" using assms by (simp add: da_def db_def)
  have ra: "round_half_even a
            = (if da < 1 / 2 then f else if 1 / 2 < da then f + 1 else if even f then f else f + 1)"
    by (simp add: round_half_even_def Let_def True f_def da_def)
  have rb: "round_half_even b
            = (if db < 1 / 2 then f else if 1 / 2 < db then f + 1 else if even f then f else f + 1)"
    by (simp add: round_half_even_def Let_def f_def db_def)
  show ?thesis
  proof (cases "da < 1 / 2")
    case True
    then have "round_half_even a = f" by (simp add: ra)
    moreover have "f \<le> round_half_even b" by (simp add: rb)
    ultimately show ?thesis by simp
  next
    case False
    show ?thesis
    proof (cases "1 / 2 < db")
      case True
      then have "round_half_even b = f + 1" by (simp add: rb)
      moreover have "round_half_even a \<le> f + 1" by (simp add: ra)
      ultimately show ?thesis by simp
    next
      case not_above: False
      with False le have "da = 1 / 2" "db = 1 / 2" by simp_all
      then show ?thesis by (simp add: ra rb)
    qed
  qed
next
  case False
  with assms have "\<lfloor>a\<rfloor> < \<lfloor>b\<rfloor>" using floor_mono [of a b] by simp
  then have "\<lfloor>a\<rfloor> + 1 \<le> \<lfloor>b\<rfloor>" by simp
  with round_half_even_floor [of a] round_half_even_floor [of b] show ?thesis by linarith
qed

lemma double_round_binade:
  assumes "2 powr of_int e \<le> \<bar>x\<bar>" "\<bar>x\<bar> < 2 powr (of_int e + 1)"
  shows "double_round x
         = 2 powr (of_int e - 52) * of_int (round_half_even (x / 2 powr (of_int e - 52)))"
proof -
  have "(0 :: real) < 2 powr of_int e" by simp
  with assms(1) have pos: "0 < \<bar>x\<bar>" by linarith
  then have nz: "x \<noteq> 0" by simp
  have "of_int e \<le> log 2 \<bar>x\<bar>"
    using assms(1) pos by (simp add: le_log_iff)
  moreover have "log 2 \<bar>x\<bar> < of_int e + 1"
    using assms(2) pos by (simp add: log_less_iff)
  ultimately have "\<lfloor>log 2 \<bar>x\<bar>\<rfloor> = e" by (intro floor_unique) simp_all
  with nz show ?thesis by (simp add: double_round_def Let_def)
qed

lemma two_powr_nat: "(2 :: real) powr real k = 2 ^ k"
  by (simp add: powr_realpow)

lemma two_powr_neg_nat: "(2 :: real) powr (- real k) = 1 / 2 ^ k"
  by (simp add: powr_minus powr_realpow divide_inverse)

lemma double_round_ge_one:
  assumes "2 ^ k \<le> \<bar>x\<bar>" "\<bar>x\<bar> < 2 ^ Suc k" "k \<le> 52"
  shows "double_round x = of_int (round_half_even (x * 2 ^ (52 - k))) / 2 ^ (52 - k)"
proof -
  have a: "(2 :: real) powr of_int (int k) = 2 ^ k"
    using two_powr_nat [of k] by simp
  have "of_int (int k) + 1 = real (Suc k)" by simp
  then have b: "(2 :: real) powr (of_int (int k) + 1) = 2 ^ Suc k"
    by (simp only: two_powr_nat)
  have "of_int (int k) - 52 = - real (52 - k)"
    using assms(3) by (simp add: of_nat_diff)
  then have c: "(2 :: real) powr (of_int (int k) - 52) = 1 / 2 ^ (52 - k)"
    by (simp only: two_powr_neg_nat)
  from assms(1,2) have "double_round x
     = 2 powr (of_int (int k) - 52)
       * of_int (round_half_even (x / 2 powr (of_int (int k) - 52)))"
    by (intro double_round_binade) (simp_all only: a b)
  then show ?thesis unfolding c by simp
qed

lemma double_round_lt_one:
  assumes "1 / 2 ^ Suc k \<le> \<bar>x\<bar>" "\<bar>x\<bar> < 1 / 2 ^ k"
  shows "double_round x = of_int (round_half_even (x * 2 ^ (k + 53))) / 2 ^ (k + 53)"
proof -
  have "of_int (- int (Suc k)) = - real (Suc k)" by simp
  then have a: "(2 :: real) powr of_int (- int (Suc k)) = 1 / 2 ^ Suc k"
    by (simp only: two_powr_neg_nat)
  have "of_int (- int (Suc k)) + 1 = - real k" by simp
  then have b: "(2 :: real) powr (of_int (- int (Suc k)) + 1) = 1 / 2 ^ k"
    by (simp only: two_powr_neg_nat)
  have "of_int (- int (Suc k)) - 52 = - real (k + 53)" by simp
  then have c: "(2 :: real) powr (of_int (- int (Suc k)) - 52) = 1 / 2 ^ (k + 53)"
    by (simp only: two_powr_neg_nat)
  from assms have "double_round x
     = 2 powr (of_int (- int (Suc k)) - 52)
       * of_int (round_half_even (x / 2 powr (of_int (- int (Suc k)) - 52)))"
    by (intro double_round_binade) (simp_all only: a b)
  then show ?thesis unfolding c by simp
qed

lemma round_half_even_minus: "round_half_even (- x) = - round_half_even x"
proof (cases "x \<in> \<int>")
  case True
  then obtain k where "x = of_int k" by (auto elim: Ints_cases)
  then have "- x = of_int (- k)" by simp
  then show ?thesis unfolding \<open>x = of_int k\<close> by (simp only: round_half_even_of_int)
next
  case False
  define f where "f = \<lfloor>x\<rfloor>"
  define d where "d = x - of_int f"
  have "of_int f \<noteq> x" using False by (metis Ints_of_int)
  moreover have "of_int f \<le> x" by (simp add: f_def)
  moreover have "x < of_int f + 1" unfolding f_def by linarith
  ultimately have d: "0 < d" "d < 1" by (simp_all add: d_def)
  have fl: "\<lfloor>- x\<rfloor> = - f - 1"
  proof (rule floor_unique)
    show "of_int (- f - 1) \<le> - x" using d by (simp add: d_def)
    show "- x < of_int (- f - 1) + 1" using d by (simp add: d_def)
  qed
  have d': "- x - of_int (- f - 1) = 1 - d" by (simp add: d_def)
  have rx: "round_half_even x
        = (if d < 1 / 2 then f else if 1 / 2 < d then f + 1 else if even f then f else f + 1)"
    by (simp add: round_half_even_def Let_def f_def d_def)
  have rm: "round_half_even (- x)
        = (if 1 - d < 1 / 2 then - f - 1 else if 1 / 2 < 1 - d then - f
           else if even (- f - 1) then - f - 1 else - f)"
    unfolding round_half_even_def Let_def fl d' by simp
  show ?thesis
  proof (cases "d < 1 / 2")
    case True
    then show ?thesis by (simp add: rx rm)
  next
    case not_below: False
    show ?thesis
    proof (cases "1 / 2 < d")
      case True
      then show ?thesis by (simp add: rx rm)
    next
      case not_above: False
      with not_below have "d = 1 / 2" by simp
      then show ?thesis by (simp add: rx rm)
    qed
  qed
qed

lemma double_round_minus: "double_round (- x) = - double_round x"
  by (simp add: double_round_def Let_def round_half_even_minus)

lemma double_round_zero [simp]: "double_round 0 = 0"
  by (simp add: double_round_def)

lemma binade_bounds:
  assumes "0 < x"
  shows "2 powr of_int \<lfloor>log 2 x\<rfloor> \<le> x \<and> x < 2 powr (of_int \<lfloor>log 2 x\<rfloor> + 1)"
proof -
  have "of_int \<lfloor>log 2 x\<rfloor> \<le> log 2 x" by simp
  then have a: "2 powr of_int \<lfloor>log 2 x\<rfloor> \<le> x"
    using assms le_log_iff [of 2 x "of_int \<lfloor>log 2 x\<rfloor>"] by simp
  have "log 2 x < of_int \<lfloor>log 2 x\<rfloor> + 1" by linarith
  then have b: "x < 2 powr (of_int \<lfloor>log 2 x\<rfloor> + 1)"
    using assms log_less_iff [of 2 x "of_int \<lfloor>log 2 x\<rfloor> + 1"] by simp
  from a b show ?thesis ..
qed

lemma double_round_pos_bounds:
  assumes "0 < x"
  shows "2 powr of_int \<lfloor>log 2 x\<rfloor> \<le> double_round x
         \<and> double_round x \<le> 2 powr (of_int \<lfloor>log 2 x\<rfloor> + 1)"
proof -
  define e where "e = \<lfloor>log 2 x\<rfloor>"
  define u :: real where "u = 2 powr (of_int e - 52)"
  have u: "0 < u" by (simp add: u_def)
  have e52: "of_int e = (of_int e - 52) + real 52"
    and e53: "of_int e + 1 = (of_int e - 52) + real 53" by simp_all
  have pe: "2 powr of_int e = u * 2 ^ 52"
    by (subst e52, simp only: powr_add two_powr_nat u_def)
  have pe1: "2 powr (of_int e + 1) = u * 2 ^ 53"
    by (subst e53, simp only: powr_add two_powr_nat u_def)
  from binade_bounds [OF assms] have b: "u * 2 ^ 52 \<le> x" "x < u * 2 ^ 53"
    unfolding e_def [symmetric] pe pe1 by simp_all
  have lo: "2 ^ 52 \<le> x / u" using b(1) u by (simp add: pos_le_divide_eq mult.commute)
  have hi: "x / u \<le> 2 ^ 53" using b(2) u by (simp add: pos_divide_le_eq mult.commute)
  have "round_half_even (of_int (2 ^ 52)) \<le> round_half_even (x / u)"
    by (rule round_half_even_mono) (use lo in simp)
  then have rlo: "(2 :: int) ^ 52 \<le> round_half_even (x / u)"
    by (simp only: round_half_even_of_int)
  have "round_half_even (x / u) \<le> round_half_even (of_int (2 ^ 53))"
    by (rule round_half_even_mono) (use hi in simp)
  then have rhi: "round_half_even (x / u) \<le> (2 :: int) ^ 53"
    by (simp only: round_half_even_of_int)
  have dr: "double_round x = u * of_int (round_half_even (x / u))"
    using assms by (simp add: double_round_def Let_def e_def u_def)
  from rlo have "(of_int (2 ^ 52) :: real) \<le> of_int (round_half_even (x / u))"
    by (simp only: of_int_le_iff)
  then have r1: "(2 :: real) ^ 52 \<le> of_int (round_half_even (x / u))" by simp
  from rhi have "(of_int (round_half_even (x / u)) :: real) \<le> of_int (2 ^ 53)"
    by (simp only: of_int_le_iff)
  then have r2: "of_int (round_half_even (x / u)) \<le> (2 :: real) ^ 53" by simp
  have "u * 2 ^ 52 \<le> u * of_int (round_half_even (x / u))"
    using r1 less_imp_le [OF u] by (rule mult_left_mono)
  moreover have "u * of_int (round_half_even (x / u)) \<le> u * 2 ^ 53"
    using r2 less_imp_le [OF u] by (rule mult_left_mono)
  ultimately show ?thesis unfolding e_def [symmetric] pe pe1 dr by blast
qed

lemma double_round_mono_pos:
  assumes "0 < x" "x \<le> y"
  shows "double_round x \<le> double_round y"
proof -
  have ypos: "0 < y" using assms by simp
  define ex where "ex = \<lfloor>log 2 x\<rfloor>"
  define ey where "ey = \<lfloor>log 2 y\<rfloor>"
  have "log 2 x \<le> log 2 y" using assms by simp
  then have le: "ex \<le> ey" unfolding ex_def ey_def by (rule floor_mono)
  show ?thesis
  proof (cases "ex = ey")
    case True
    define u :: real where "u = 2 powr (of_int ey - 52)"
    have u: "0 < u" by (simp add: u_def)
    have "x / u \<le> y / u" using assms(2) u by (simp add: divide_right_mono)
    then have "round_half_even (x / u) \<le> round_half_even (y / u)"
      by (rule round_half_even_mono)
    then have "u * of_int (round_half_even (x / u)) \<le> u * of_int (round_half_even (y / u))"
      using u by (intro mult_left_mono) simp_all
    moreover have "double_round x = u * of_int (round_half_even (x / u))"
      using assms(1) by (simp add: double_round_def Let_def ex_def [symmetric] True u_def)
    moreover have "double_round y = u * of_int (round_half_even (y / u))"
      using ypos by (simp add: double_round_def Let_def ey_def [symmetric] u_def)
    ultimately show ?thesis by simp
  next
    case False
    with le have "ex + 1 \<le> ey" by simp
    then have "(of_int ex :: real) + 1 \<le> of_int ey" by linarith
    then have "(2 :: real) powr (of_int ex + 1) \<le> 2 powr of_int ey" by simp
    with double_round_pos_bounds [OF assms(1)] double_round_pos_bounds [OF ypos]
    show ?thesis unfolding ex_def ey_def by linarith
  qed
qed

lemma double_round_nonneg: "0 \<le> x \<Longrightarrow> 0 \<le> double_round x"
proof (cases "x = 0")
  case True
  then show ?thesis by simp
next
  case False
  assume "0 \<le> x"
  with False have pos: "0 < x" by simp
  have "(0 :: real) \<le> 2 powr of_int \<lfloor>log 2 x\<rfloor>" by simp
  with double_round_pos_bounds [OF pos] show ?thesis by linarith
qed

lemma double_round_mono_nonneg:
  assumes "0 \<le> x" "x \<le> y"
  shows "double_round x \<le> double_round y"
proof (cases "x = 0")
  case True
  with assms double_round_nonneg [of y] show ?thesis by simp
next
  case False
  with assms(1) have "0 < x" by simp
  then show ?thesis using assms(2) by (rule double_round_mono_pos)
qed

lemma double_round_03: "double_round 0.3 = 5404319552844595 / 2 ^ 54"
  using double_round_lt_one [of 1 "0.3"] by (simp add: round_half_even_def Let_def)

lemma double_round_06: "double_round 0.6 = 5404319552844595 / 2 ^ 53"
  using double_round_lt_one [of 0 "0.6"] by (simp add: round_half_even_def Let_def)

lemma double_round_045: "double_round 0.45 = 8106479329266893 / 2 ^ 54"
  using double_round_lt_one [of 1 "0.45"] by (simp add: round_half_even_def Let_def)

lemma double_round_05: "double_round 0.5 = 1 / 2"
  using double_round_lt_one [of 0 "0.5"] by (simp add: round_half_even_def Let_def)

lemma double_round_1: "double_round 1 = 1"
  using double_round_ge_one [of 0 1] by (simp add: round_half_even_def Let_def)

lemma double_round_2: "double_round 2 = 2"
  using double_round_ge_one [of 1 2] by (simp add: round_half_even_def Let_def)

lemma double_round_10: "double_round 10 = 10"
  using double_round_ge_one [of 3 10] by (simp add: round_half_even_def Let_def)

lemma double_round_27315: "double_round 273.15 = 4805305618032230 / 2 ^ 44"
  using double_round_ge_one [of 8 "273.15"] by (simp add: round_half_even_def Let_def)

lemma double_round_alpha_water:
  "double_round (5404319552844595 / 2 ^ 54) = 5404319552844595 / 2 ^ 54"
  using double_round_lt_one [of 1 "5404319552844595 / 2 ^ 54"]
  by (simp add: round_half_even_def Let_def)

lemma double_round_alpha_ice:
  "double_round (5404319552844595 / 2 ^ 53) = 5404319552844595 / 2 ^ 53"
  using double_round_lt_one [of 0 "5404319552844595 / 2 ^ 53"]
  by (simp add: round_half_even_def Let_def)

lemma double_round_alpha_half:
  "double_round (5404319552844595 / 2 ^ 55) = 5404319552844595 / 2 ^ 55"
  using double_round_lt_one [of 2 "5404319552844595 / 2 ^ 55"]
  by (simp add: round_half_even_def Let_def)

lemma double_round_midpoint:
  "double_round (16212958658533785 / 2 ^ 55) = 8106479329266892 / 2 ^ 54"
  using double_round_lt_one [of 1 "16212958658533785 / 2 ^ 55"]
  by (simp add: round_half_even_def Let_def)

lemma round_half_even_above_half:
  assumes "of_int n + 1 / 2 < z" "z < of_int n + 1"
  shows "round_half_even z = n + 1"
proof -
  have f: "\<lfloor>z\<rfloor> = n" using assms by (intro floor_unique) simp_all
  have "1 / 2 < z - of_int n" using assms(1) by simp
  then show ?thesis unfolding round_half_even_def Let_def f by simp
qed

lemma double_round_near_one:
  assumes "1 - 1 / 2 ^ 54 < y" "y < 1"
  shows "double_round y = 1"
proof -
  have a: "\<bar>y\<bar> = y" using assms(1) by simp
  have "1 / 2 ^ Suc 0 \<le> \<bar>y\<bar>" unfolding a using assms(1) by simp
  moreover have "\<bar>y\<bar> < 1 / 2 ^ 0" unfolding a using assms(2) by simp
  ultimately have d: "double_round y = of_int (round_half_even (y * 2 ^ (0 + 53))) / 2 ^ (0 + 53)"
    by (rule double_round_lt_one)
  have "round_half_even (y * 2 ^ 53) = (2 ^ 53 - 1) + 1"
  proof (rule round_half_even_above_half)
    show "of_int (2 ^ 53 - 1) + 1 / 2 < y * 2 ^ 53" using assms(1) by simp
    show "y * 2 ^ 53 < of_int (2 ^ 53 - 1) + 1" using assms(2) by simp
  qed
  then show ?thesis unfolding d by simp
qed

lemma exp_one_ge: "5 / 2 \<le> exp (1 :: real)"
proof -
  have "(5 / 2 :: real) \<le> (1 + 1 / of_nat 6) ^ 6"
    by (simp add: power_divide)
  also have "\<dots> \<le> exp 1"
    by (rule exp_ge_one_plus_x_over_n_power_n) simp_all
  finally show ?thesis .
qed

lemma exp_44_ge: "2 ^ 55 < exp (44 :: real)"
proof -
  have "(2 :: real) ^ 55 < (5 / 2) ^ 44" by (simp add: power_divide)
  also have "\<dots> \<le> exp 1 ^ 44"
    using exp_one_ge by (intro power_mono) simp_all
  also have "\<dots> = exp (44 :: real)"
    using exp_of_nat_mult [of 44 "1 :: real"] by simp
  finally show ?thesis .
qed

lemma tanh_saturated:
  assumes "22 \<le> (x :: real)"
  shows "1 - 1 / 2 ^ 54 < tanh x \<and> tanh x < 1"
proof -
  define y where "y = exp (- 2 * x)"
  have ypos: "0 < y" by (simp add: y_def)
  have "exp (44 :: real) \<le> exp (2 * x)" using assms by simp
  with exp_44_ge have big: "2 ^ 55 < exp (2 * x)" by linarith
  have "y = 1 / exp (2 * x)" by (simp add: y_def exp_minus field_simps)
  also have "\<dots> < 1 / 2 ^ 55" using big by (simp add: field_simps)
  finally have ysmall: "y < 1 / 2 ^ 55" .
  define c :: real where "c = 1 / 2 ^ 54"
  have cpos: "0 < c" by (simp add: c_def)
  have "y < c / 2" using ysmall by (simp add: c_def)
  moreover have "0 < c * y" using cpos ypos by simp
  moreover have "(1 - c) * (1 + y) = 1 + y - c - c * y" by (simp add: algebra_simps)
  ultimately have "(1 - c) * (1 + y) < 1 - y" by linarith
  then have "(1 - 1 / 2 ^ 54) * (1 + y) < 1 - y" unfolding c_def .
  with ypos have "1 - 1 / 2 ^ 54 < (1 - y) / (1 + y)" by (simp add: pos_less_divide_eq)
  then have "1 - 1 / 2 ^ 54 < tanh x" unfolding y_def tanh_real_altdef .
  then show ?thesis using tanh_real_lt_1 [of x] by simp
qed

lemma tanh_double_saturated: "22 \<le> x \<Longrightarrow> tanh_double x = 1"
  unfolding tanh_double_def using tanh_saturated [of x] by (intro double_round_near_one) simp_all

lemma tanh_double_minus: "tanh_double (- x) = - tanh_double x"
  by (simp add: tanh_double_def double_round_minus)

lemma tanh_double_bounds: "- 1 \<le> tanh_double x \<and> tanh_double x \<le> 1"
proof (cases "0 \<le> tanh x")
  case True
  have "tanh x \<le> 1" using tanh_real_lt_1 [of x] by simp
  with True have "double_round (tanh x) \<le> double_round 1" by (rule double_round_mono_nonneg)
  moreover have "0 \<le> double_round (tanh x)" using True by (rule double_round_nonneg)
  ultimately show ?thesis unfolding tanh_double_def double_round_1 by simp
next
  case False
  then have n: "0 \<le> - tanh x" by simp
  have "- tanh x \<le> 1" using tanh_real_gt_neg1 [of x] by simp
  with n have "double_round (- tanh x) \<le> double_round 1" by (rule double_round_mono_nonneg)
  moreover have "0 \<le> double_round (- tanh x)" using n by (rule double_round_nonneg)
  ultimately show ?thesis unfolding tanh_double_def double_round_1 double_round_minus by simp
qed

lemma alpha_difference_double:
  "double_round (double_round 0.6 - double_round 0.3) = double_round 0.3"
proof -
  have "(5404319552844595 / 2 ^ 53 - 5404319552844595 / 2 ^ 54 :: real)
        = 5404319552844595 / 2 ^ 54" by simp
  then show ?thesis
    unfolding double_round_06 double_round_03 by (simp only: double_round_alpha_water)
qed

lemma alpha_half_double:
  "double_round (double_round 0.3 * double_round 0.5) = double_round 0.3 / 2"
proof -
  have a: "(5404319552844595 / 2 ^ 54 * (1 / 2) :: real) = 5404319552844595 / 2 ^ 55" by simp
  have b: "(5404319552844595 / 2 ^ 54 / 2 :: real) = 5404319552844595 / 2 ^ 55" by simp
  show ?thesis
    unfolding double_round_03 double_round_05 by (simp only: a b double_round_alpha_half)
qed

lemma albedo_double_unfold:
  "albedo_double T =
     double_round (double_round 0.3
       + double_round (double_round 0.3 / 2
           * double_round (1 - tanh_double
               (double_round (double_round (T - double_round 273.15) / 10)))))"
  unfolding albedo_double_def Let_def alpha_difference_double alpha_half_double double_round_10 ..

lemma double_round_half_alpha: "double_round (double_round 0.3 / 2) = double_round 0.3 / 2"
proof -
  have b: "(5404319552844595 / 2 ^ 54 / 2 :: real) = 5404319552844595 / 2 ^ 55" by simp
  show ?thesis unfolding double_round_03 by (simp only: b double_round_alpha_half)
qed

lemma double_round_alpha_sum:
  "double_round (double_round 0.3 + double_round 0.3) = double_round 0.6"
proof -
  have b: "(5404319552844595 / 2 ^ 54 + 5404319552844595 / 2 ^ 54 :: real)
           = 5404319552844595 / 2 ^ 53" by simp
  show ?thesis unfolding double_round_03 double_round_06 by (simp only: b double_round_alpha_ice)
qed

lemma double_round_alpha: "double_round (double_round 0.3) = double_round 0.3"
  unfolding double_round_03 by (rule double_round_alpha_water)

lemma albedo_double_freezing:
  "albedo_double (double_round 273.15) = 8106479329266892 / 2 ^ 54"
proof -
  have t: "tanh_double (double_round (double_round (double_round 273.15 - double_round 273.15) / 10)) = 0"
    by (simp add: tanh_double_def)
  have one: "double_round (1 - 0) = 1" by (simp add: double_round_1)
  have s: "(5404319552844595 / 2 ^ 54 + 5404319552844595 / 2 ^ 54 / 2 :: real)
           = 16212958658533785 / 2 ^ 55" by simp
  have "albedo_double (double_round 273.15)
        = double_round (double_round 0.3 + double_round (double_round 0.3 / 2 * 1))"
    unfolding albedo_double_unfold t one ..
  also have "\<dots> = double_round (double_round 0.3 + double_round 0.3 / 2)"
    by (simp only: mult_1_right double_round_half_alpha)
  also have "\<dots> = 8106479329266892 / 2 ^ 54"
    unfolding double_round_03 by (simp only: s double_round_midpoint)
  finally show ?thesis .
qed

lemma albedo_double_tanh_one:
  assumes "tanh_double (double_round (double_round (T - double_round 273.15) / 10)) = 1"
  shows "albedo_double T = double_round 0.3"
proof -
  have z: "double_round (1 - 1) = 0" by simp
  show ?thesis unfolding albedo_double_unfold assms z
    by (simp only: mult_zero_right double_round_zero add_0_right double_round_alpha)
qed

lemma albedo_double_tanh_minus_one:
  assumes "tanh_double (double_round (double_round (T - double_round 273.15) / 10)) = - 1"
  shows "albedo_double T = double_round 0.6"
proof -
  have z: "double_round (1 - - 1) = 2" by (simp add: double_round_2)
  have h: "double_round 0.3 / 2 * 2 = double_round 0.3" by simp
  show ?thesis unfolding albedo_double_unfold assms z
    by (simp only: h double_round_alpha double_round_alpha_sum)
qed

lemma double_round_220: "double_round 220 = 220"
  using double_round_ge_one [of 7 220] by (simp add: round_half_even_def Let_def)

lemma double_round_22: "double_round 22 = 22"
  using double_round_ge_one [of 4 22] by (simp add: round_half_even_def Let_def)

lemma double_round_scaled_ge:
  assumes "220 \<le> d"
  shows "22 \<le> double_round (double_round d / 10)"
proof -
  have "double_round 220 \<le> double_round d" using assms by (intro double_round_mono_nonneg) simp_all
  then have "22 \<le> double_round d / 10" unfolding double_round_220 by simp
  then have "double_round 22 \<le> double_round (double_round d / 10)"
    by (intro double_round_mono_nonneg) simp_all
  then show ?thesis unfolding double_round_22 .
qed

lemma freezing_double_bounds: "273 \<le> double_round 273.15 \<and> double_round 273.15 \<le> 274"
  unfolding double_round_27315 by simp

lemma albedo_double_warm_saturated:
  assumes "494 \<le> T"
  shows "albedo_double T = double_round 0.3"
proof -
  have "220 \<le> T - double_round 273.15" using assms freezing_double_bounds by linarith
  then have "22 \<le> double_round (double_round (T - double_round 273.15) / 10)"
    by (rule double_round_scaled_ge)
  then have "tanh_double (double_round (double_round (T - double_round 273.15) / 10)) = 1"
    by (rule tanh_double_saturated)
  then show ?thesis by (rule albedo_double_tanh_one)
qed

lemma albedo_double_cold_saturated:
  assumes "T \<le> 53"
  shows "albedo_double T = double_round 0.6"
proof -
  define d where "d = double_round 273.15 - T"
  have "220 \<le> d" unfolding d_def using assms freezing_double_bounds by linarith
  then have "22 \<le> double_round (double_round d / 10)"
    by (rule double_round_scaled_ge)
  then have "tanh_double (double_round (double_round d / 10)) = 1"
    by (rule tanh_double_saturated)
  moreover have "T - double_round 273.15 = - d" by (simp add: d_def)
  moreover have "double_round (double_round (- d) / 10) = - double_round (double_round d / 10)"
    by (simp only: double_round_minus minus_divide_left [symmetric])
  ultimately have "tanh_double (double_round (double_round (T - double_round 273.15) / 10)) = - 1"
    by (simp only: tanh_double_minus)
  then show ?thesis by (rule albedo_double_tanh_minus_one)
qed

lemma albedo_double_bounds:
  "double_round 0.3 \<le> albedo_double T \<and> albedo_double T \<le> double_round 0.6"
proof -
  define t where "t = tanh_double (double_round (double_round (T - double_round 273.15) / 10))"
  define s where "s = double_round (1 - t)"
  define a where "a = double_round 0.3"
  define p where "p = double_round (a / 2 * s)"
  have apos: "0 \<le> a" unfolding a_def double_round_03 by simp
  have t: "- 1 \<le> t" "t \<le> 1" unfolding t_def using tanh_double_bounds by simp_all
  have s0: "0 \<le> s" unfolding s_def using t by (intro double_round_nonneg) simp
  have "double_round (1 - t) \<le> double_round 2"
    using t by (intro double_round_mono_nonneg) simp_all
  then have s2: "s \<le> 2" unfolding s_def double_round_2 .
  have h0: "0 \<le> a / 2 * s" using apos s0 by simp
  have "a / 2 * s \<le> a / 2 * 2" using apos s2 by (intro mult_left_mono) simp_all
  then have h2: "a / 2 * s \<le> a" by simp
  have p0: "0 \<le> p" unfolding p_def using h0 by (rule double_round_nonneg)
  have "double_round (a / 2 * s) \<le> double_round a" using h0 h2 by (rule double_round_mono_nonneg)
  then have pa: "p \<le> a" unfolding p_def a_def double_round_alpha .
  have r: "albedo_double T = double_round (a + p)"
    unfolding albedo_double_unfold p_def s_def t_def a_def ..
  have "double_round a \<le> double_round (a + p)"
    using apos p0 by (intro double_round_mono_nonneg) simp_all
  then have lo: "a \<le> albedo_double T" unfolding r a_def double_round_alpha .
  have "double_round (a + p) \<le> double_round (a + a)"
    using apos p0 pa by (intro double_round_mono_nonneg) simp_all
  then have hi: "albedo_double T \<le> double_round 0.6" unfolding r a_def double_round_alpha_sum .
  from lo hi show ?thesis unfolding a_def ..
qed

subsection \<open>The rounding error of the albedo\<close>

lemma round_half_even_error: "\<bar>of_int (round_half_even z) - z\<bar> \<le> 1 / 2"
proof -
  define f where "f = \<lfloor>z\<rfloor>"
  define d where "d = z - of_int f"
  have d0: "0 \<le> d" unfolding d_def f_def by simp
  have d1: "d < 1" unfolding d_def f_def by linarith
  have z: "z = of_int f + d" by (simp add: d_def)
  have r: "round_half_even z
        = (if d < 1 / 2 then f else if 1 / 2 < d then f + 1 else if even f then f else f + 1)"
    by (simp add: round_half_even_def Let_def f_def d_def)
  show ?thesis
  proof (cases "d < 1 / 2")
    case True
    then have "round_half_even z = f" by (simp add: r)
    then show ?thesis using d0 True by (simp add: z)
  next
    case not_below: False
    show ?thesis
    proof (cases "1 / 2 < d")
      case True
      with not_below have "round_half_even z = f + 1" by (simp add: r)
      then show ?thesis using d1 True by (simp add: z)
    next
      case False
      with not_below have h: "d = 1 / 2" by simp
      then have "round_half_even z = f \<or> round_half_even z = f + 1" by (simp add: r)
      then have "of_int (round_half_even z) - z = - d \<or> of_int (round_half_even z) - z = 1 - d"
        unfolding d_def by auto
      then show ?thesis unfolding h by auto
    qed
  qed
qed

lemma double_round_error_pos:
  assumes "0 < x"
  shows "\<bar>double_round x - x\<bar> \<le> x / 2 ^ 53"
proof -
  define e where "e = \<lfloor>log 2 x\<rfloor>"
  define u :: real where "u = 2 powr (of_int e - 52)"
  have u: "0 < u" by (simp add: u_def)
  have e52: "of_int e = (of_int e - 52) + real 52" by simp
  have pe: "2 powr of_int e = u * 2 ^ 52"
    by (subst e52, simp only: powr_add two_powr_nat u_def)
  from binade_bounds [OF assms] have b: "u * 2 ^ 52 \<le> x"
    unfolding e_def [symmetric] pe by simp
  have dr: "double_round x = u * of_int (round_half_even (x / u))"
    using assms by (simp add: double_round_def Let_def e_def u_def)
  have "double_round x - x = u * (of_int (round_half_even (x / u)) - x / u)"
    using u by (simp add: dr algebra_simps)
  then have "\<bar>double_round x - x\<bar> = u * \<bar>of_int (round_half_even (x / u)) - x / u\<bar>"
    using u by (simp add: abs_mult)
  also have "\<dots> \<le> u * (1 / 2)"
    using u round_half_even_error [of "x / u"] by (intro mult_left_mono) simp_all
  also have "\<dots> = u * 2 ^ 52 / 2 ^ 53" by simp
  also have "\<dots> \<le> x / 2 ^ 53" using b by (intro divide_right_mono) simp_all
  finally show ?thesis .
qed

lemma double_round_error: "\<bar>double_round x - x\<bar> \<le> \<bar>x\<bar> / 2 ^ 53"
proof (cases "0 < x")
  case True
  then show ?thesis using double_round_error_pos [of x] by simp
next
  case False
  show ?thesis
  proof (cases "x = 0")
    case True
    then show ?thesis by simp
  next
    case nz: False
    with False have n: "0 < - x" by simp
    have "\<bar>double_round x - x\<bar> = \<bar>double_round (- x) - (- x)\<bar>"
      by (simp add: double_round_minus)
    also have "\<dots> \<le> (- x) / 2 ^ 53" using n by (rule double_round_error_pos)
    also have "\<dots> = \<bar>x\<bar> / 2 ^ 53" using n by simp
    finally show ?thesis .
  qed
qed

lemma tanh_lipschitz_le:
  assumes "a \<le> (b :: real)"
  shows "0 \<le> tanh b - tanh a \<and> tanh b - tanh a \<le> b - a"
proof -
  have mono: "tanh a \<le> tanh b" using assms by simp
  have d: "\<exists>y. DERIV (\<lambda>x. x - tanh x) x :> y \<and> 0 \<le> y" for x :: real
  proof -
    have "DERIV (\<lambda>x. x - tanh x) x :> 1 - (1 - (tanh x)\<^sup>2)"
      by (auto intro!: derivative_eq_intros simp: cosh_real_nonzero)
    moreover have "0 \<le> 1 - (1 - (tanh x)\<^sup>2)" by simp
    ultimately show ?thesis by blast
  qed
  have "a - tanh a \<le> b - tanh b"
    by (rule DERIV_nonneg_imp_nondecreasing [of a b "\<lambda>x. x - tanh x"]) (use assms d in auto)
  with mono show ?thesis by simp
qed

lemma tanh_lipschitz: "\<bar>tanh a - tanh b\<bar> \<le> \<bar>a - (b :: real)\<bar>"
proof (cases "a \<le> b")
  case True
  with tanh_lipschitz_le [of a b] show ?thesis by simp
next
  case False
  then have "b \<le> a" by simp
  with tanh_lipschitz_le [of b a] show ?thesis by simp
qed

lemma double_round_error_bound:
  assumes "\<bar>x\<bar> \<le> c"
  shows "\<bar>double_round x - x\<bar> \<le> c * (1 / 2 ^ 53)"
proof -
  have "\<bar>double_round x - x\<bar> \<le> \<bar>x\<bar> / 2 ^ 53" by (rule double_round_error)
  also have "\<dots> \<le> c / 2 ^ 53" using assms by (intro divide_right_mono) simp_all
  finally show ?thesis by simp
qed

lemma albedo_double_error:
  assumes "150 \<le> T" "T \<le> 400"
  shows "\<bar>albedo_double T - albedo T\<bar> \<le> 13 / 2 ^ 53"
proof -
  define E :: real where "E = 1 / 2 ^ 53"
  have Epos: "0 < E" and Esmall: "E \<le> 1 / 1000" by (simp_all add: E_def)
  have err: "\<bar>double_round x - x\<bar> \<le> c * E" if "\<bar>x\<bar> \<le> c" for x c
    unfolding E_def using that by (rule double_round_error_bound)
  have k: "(273.15 :: real) = 5463 / 20" by simp
  define tf where "tf = double_round 273.15"
  define d where "d = double_round (T - tf)"
  define x where "x = double_round (d / 10)"
  define x0 where "x0 = (T - 5463 / 20) / 10"
  define t where "t = tanh_double x"
  define t0 where "t0 = tanh x0"
  define s where "s = double_round (1 - t)"
  define a where "a = double_round 0.3"
  define h where "h = a / 2"
  define p where "p = double_round (h * s)"
  have "\<bar>tf - 273.15\<bar> \<le> 274 * E"
    unfolding tf_def by (rule err) simp
  then have tf: "\<bar>tf - 5463 / 20\<bar> \<le> 274 * E" unfolding k .
  have tfb: "273 \<le> tf" "tf \<le> 274"
    unfolding tf_def using freezing_double_bounds by simp_all
  have dT: "\<bar>T - tf\<bar> \<le> 127" using assms tfb by argo
  have d1: "\<bar>d - (T - tf)\<bar> \<le> 127 * E"
    unfolding d_def using dT by (rule err)
  have d2: "\<bar>d - (T - 5463 / 20)\<bar> \<le> 401 * E" using d1 tf by argo
  have db: "\<bar>d\<bar> \<le> 128" using d1 dT Esmall by argo
  have qb: "\<bar>d / 10\<bar> \<le> 64 / 5" using db by argo
  have x1: "\<bar>x - d / 10\<bar> \<le> 64 / 5 * E"
    unfolding x_def using qb by (rule err)
  have x2: "\<bar>x - x0\<bar> \<le> 53 * E"
    using x1 d2 Epos unfolding x0_def by argo
  have tb: "\<bar>tanh x\<bar> \<le> 1"
    using tanh_real_lt_1 [of x] tanh_real_gt_neg1 [of x] by argo
  have t1: "\<bar>t - tanh x\<bar> \<le> 1 * E"
    unfolding t_def tanh_double_def using tb by (rule err)
  have "\<bar>tanh x - t0\<bar> \<le> \<bar>x - x0\<bar>" unfolding t0_def by (rule tanh_lipschitz)
  with x2 t1 have t2: "\<bar>t - t0\<bar> \<le> 54 * E" by argo
  have tdb: "\<bar>t\<bar> \<le> 1" unfolding t_def using tanh_double_bounds [of x] by argo
  have t0b: "\<bar>t0\<bar> \<le> 1"
    unfolding t0_def using tanh_real_lt_1 [of x0] tanh_real_gt_neg1 [of x0]
    by argo
  have sb1: "\<bar>1 - t\<bar> \<le> 2" using tdb by argo
  have s1: "\<bar>s - (1 - t)\<bar> \<le> 2 * E"
    unfolding s_def using sb1 by (rule err)
  have s2: "\<bar>s - (1 - t0)\<bar> \<le> 56 * E" using s1 t2 by argo
  have sb: "\<bar>s\<bar> \<le> 201 / 100" using s1 sb1 Esmall by argo
  have a1: "\<bar>a - 3 / 10\<bar> \<le> 3 / 10 * E"
    unfolding a_def by (rule err) simp
  have ab: "0 \<le> a" "a \<le> 31 / 100" using a1 Esmall by argo+
  have h1: "\<bar>h - 3 / 20\<bar> \<le> 3 / 20 * E" using a1 unfolding h_def by argo
  have hb: "\<bar>h\<bar> \<le> 4 / 25" using ab unfolding h_def by argo
  have "\<bar>h * (s - (1 - t0))\<bar> = \<bar>h\<bar> * \<bar>s - (1 - t0)\<bar>" by (rule abs_mult)
  also have "\<dots> \<le> 4 / 25 * (56 * E)" using hb s2 by (intro mult_mono) simp_all
  finally have m1: "\<bar>h * (s - (1 - t0))\<bar> \<le> 9 * E" using Epos by simp
  have "\<bar>(h - 3 / 20) * (1 - t0)\<bar> = \<bar>h - 3 / 20\<bar> * \<bar>1 - t0\<bar>" by (rule abs_mult)
  also have "\<dots> \<le> 3 / 20 * E * 2"
    using h1 t0b Epos by (intro mult_mono) argo+
  finally have m2: "\<bar>(h - 3 / 20) * (1 - t0)\<bar> \<le> 3 / 10 * E" by simp
  have split: "h * s - 3 / 20 * (1 - t0) = h * (s - (1 - t0)) + (h - 3 / 20) * (1 - t0)"
    by (simp add: algebra_simps)
  have p0: "\<bar>h * s - 3 / 20 * (1 - t0)\<bar> \<le> 93 / 10 * E"
    unfolding split using m1 m2 by argo
  have "\<bar>h * s\<bar> = \<bar>h\<bar> * \<bar>s\<bar>" by (rule abs_mult)
  also have "\<dots> \<le> 4 / 25 * (201 / 100)" using hb sb by (intro mult_mono) simp_all
  finally have pb0: "\<bar>h * s\<bar> \<le> 2 / 5" by simp
  have p1: "\<bar>p - h * s\<bar> \<le> 2 / 5 * E"
    unfolding p_def using pb0 by (rule err)
  have p2: "\<bar>p - 3 / 20 * (1 - t0)\<bar> \<le> 97 / 10 * E" using p1 p0 by argo
  have pb: "\<bar>p\<bar> \<le> 1 / 2" using p1 pb0 Esmall by argo
  have rb: "\<bar>a + p\<bar> \<le> 1" using ab pb by argo
  have r1: "\<bar>double_round (a + p) - (a + p)\<bar> \<le> 1 * E"
    using rb by (rule err)
  have r: "albedo_double T = double_round (a + p)"
    unfolding albedo_double_unfold p_def h_def s_def t_def x_def d_def tf_def a_def ..
  have ex: "albedo T = 3 / 10 + 3 / 20 * (1 - t0)"
    unfolding t0_def x0_def using albedo_formula [of T] unfolding k .
  have "\<bar>albedo_double T - albedo T\<bar> \<le> 13 * E"
    unfolding r ex using r1 p2 a1 Epos by argo
  then show ?thesis unfolding E_def by simp
qed

subsection \<open>The albedo: midpoint and range\<close>

text \<open>
  Claim C6, as stated: \<open>albedo 273.15 = 0.45\<close>, and for every temperature the albedo
  lies strictly between 0.3 and 0.6. In double precision, in which the source computes,
  neither holds. At the freezing point, the double 273.15, the sum of the doubles 0.3
  and 0.15 is a tie between two doubles and is rounded to 0.44999999999999996, which is
  \<open>8106479329266892 / 2 ^ 54\<close>, one unit in the last place below the double 0.45. At
  500 K the hyperbolic tangent has become 1 and the albedo is the double 0.3 itself; at
  0 K it has become -1 and the albedo is the double 0.6 itself.
\<close>

theorem albedo_midpoint_range_counterexample:
  "albedo_double (double_round 273.15) = 8106479329266892 / 2 ^ 54
   \<and> albedo_double (double_round 273.15) \<noteq> double_round 0.45
   \<and> albedo_double (double_round 273.15) \<noteq> 0.45
   \<and> \<not> double_round 0.3 < albedo_double 500
   \<and> \<not> albedo_double 0 < double_round 0.6"
proof -
  have a: "albedo_double (double_round 273.15) = 8106479329266892 / 2 ^ 54"
    by (rule albedo_double_freezing)
  have b: "albedo_double (double_round 273.15) \<noteq> double_round 0.45"
    unfolding a double_round_045 by simp
  have c: "albedo_double (double_round 273.15) \<noteq> 0.45"
    unfolding a by simp
  have d: "albedo_double 500 = double_round 0.3"
    by (rule albedo_double_warm_saturated) simp
  have e: "albedo_double 0 = double_round 0.6"
    by (rule albedo_double_cold_saturated) simp
  from a b c d e show ?thesis by simp
qed

text \<open>
  Claim C6, amended. For every temperature \<open>T\<close>, \<open>albedo T\<close> is
  \<open>0.3 + (0.6 - 0.3) * 0.5 * (1 - tanh ((T - 273.15) / 10))\<close>, evaluated in double
  precision. In exact arithmetic the value at 273.15 is 0.45 and every value lies
  strictly between 0.3 and 0.6. As computed, the value differs from the exact one by at
  most \<open>13 / 2 ^ 53\<close>, which is less than \<open>1.5 / 10 ^ 15\<close>, for temperatures between 150
  and 400; the value at the freezing point is within \<open>1 / 10 ^ 16\<close> of 0.45; and for every
  \<open>T\<close> the value lies between the doubles 0.3 and 0.6, both included, which are within
  \<open>1 / 10 ^ 16\<close> of 0.3 and of 0.6.
\<close>

theorem albedo_formula_midpoint_range:
  "albedo T = 0.3 + (0.6 - 0.3) * 0.5 * (1 - tanh ((T - 273.15) / 10))
   \<and> albedo 273.15 = 0.45
   \<and> 0.3 < albedo T \<and> albedo T < 0.6
   \<and> (150 \<le> T \<and> T \<le> 400 \<longrightarrow> \<bar>albedo_double T - albedo T\<bar> \<le> 13 / 2 ^ 53)
   \<and> \<bar>albedo_double (double_round 273.15) - 0.45\<bar> < 1 / 10 ^ 16
   \<and> double_round 0.3 \<le> albedo_double T \<and> albedo_double T \<le> double_round 0.6
   \<and> \<bar>double_round 0.3 - 0.3\<bar> < 1 / 10 ^ 16
   \<and> \<bar>double_round 0.6 - 0.6\<bar> < 1 / 10 ^ 16"
proof -
  have formula: "albedo T = 0.3 + (0.6 - 0.3) * 0.5 * (1 - tanh ((T - 273.15) / 10))"
    by (simp add: albedo_def Let_def)
  have midpoint: "albedo 273.15 = 0.45"
    by (simp add: albedo_def Let_def)
  have lower: "0.3 < albedo T"
    using albedo_gt [of T] by simp
  have upper: "albedo T < 0.6"
    using albedo_lt [of T] by simp
  have error: "\<bar>albedo_double T - albedo T\<bar> \<le> 13 / 2 ^ 53" if "150 \<le> T \<and> T \<le> 400"
    using that by (intro albedo_double_error) simp_all
  have near: "\<bar>albedo_double (double_round 273.15) - 0.45\<bar> < 1 / 10 ^ 16"
    unfolding albedo_double_freezing by simp
  have closed: "double_round 0.3 \<le> albedo_double T \<and> albedo_double T \<le> double_round 0.6"
    by (rule albedo_double_bounds)
  have water: "\<bar>double_round 0.3 - 0.3\<bar> < 1 / 10 ^ 16"
    unfolding double_round_03 by simp
  have ice: "\<bar>double_round 0.6 - 0.6\<bar> < 1 / 10 ^ 16"
    unfolding double_round_06 by simp
  from formula midpoint lower upper error near closed water ice show ?thesis by blast
qed

theorem albedo_formula_midpoint_range_witness:
  "(150 :: real) \<le> 288 \<and> (288 :: real) \<le> 400
   \<and> \<bar>albedo_double 288 - albedo 288\<bar> \<le> 13 / 2 ^ 53
   \<and> 0.3 < albedo 288 \<and> albedo 288 < 0.6
   \<and> double_round 0.3 \<le> albedo_double 288 \<and> albedo_double 288 \<le> double_round 0.6"
proof -
  have h: "(150 :: real) \<le> 288 \<and> (288 :: real) \<le> 400" by simp
  with albedo_formula_midpoint_range [of 288] show ?thesis by blast
qed

subsection \<open>The emissivity: clipping, monotonicity and range\<close>

text \<open>
  Claim C7. For every temperature \<open>T\<close>, \<open>greenhouse_effect T\<close> is
  \<open>0.61 + 0.0001 * (T - 273.15)\<close> clipped into the interval from 0.5 to 0.8: the lower
  bound where the linear value is below it, the upper bound where it is above, the linear
  value otherwise. Hence it is non-decreasing in \<open>T\<close> and always between 0.5 and 0.8.
\<close>

theorem greenhouse_effect_clipped_monotone_bounded:
  "greenhouse_effect T =
     (if 0.61 + 0.0001 * (T - 273.15) < 0.5 then 0.5
      else if 0.8 < 0.61 + 0.0001 * (T - 273.15) then 0.8
      else 0.61 + 0.0001 * (T - 273.15))
   \<and> (\<forall>T1 T2. T1 \<le> T2 \<longrightarrow> greenhouse_effect T1 \<le> greenhouse_effect T2)
   \<and> 0.5 \<le> greenhouse_effect T \<and> greenhouse_effect T \<le> 0.8"
proof -
  have formula: "greenhouse_effect T =
     (if 0.61 + 0.0001 * (T - 273.15) < 0.5 then 0.5
      else if 0.8 < 0.61 + 0.0001 * (T - 273.15) then 0.8
      else 0.61 + 0.0001 * (T - 273.15))"
  proof -
    define e :: real where "e = 0.61 + 0.0001 * (T - 273.15)"
    have "clip e 0.5 0.8 = (if e < 0.5 then 0.5 else if 0.8 < e then 0.8 else e)"
      by (simp add: clip_def min_def max_def)
    then show ?thesis
      unfolding greenhouse_effect_def Let_def e_def .
  qed
  have mono: "greenhouse_effect T1 \<le> greenhouse_effect T2" if "T1 \<le> T2" for T1 T2
  proof -
    from that have "0.61 + 0.0001 * (T1 - 273.15) \<le> 0.61 + 0.0001 * (T2 - 273.15)"
      by simp
    then show ?thesis
      unfolding greenhouse_effect_def Let_def by (rule clip_mono)
  qed
  have range: "0.5 \<le> greenhouse_effect T \<and> greenhouse_effect T \<le> 0.8"
    using greenhouse_effect_bounds [of T] by simp
  from formula mono range show ?thesis by blast
qed

theorem greenhouse_effect_clipped_monotone_bounded_witness:
  "(273.15 :: real) \<le> 300
   \<and> greenhouse_effect 273.15 \<le> greenhouse_effect 300
   \<and> greenhouse_effect 273.15 = 0.61
   \<and> greenhouse_effect (-1000) = 0.5
   \<and> greenhouse_effect 3000 = 0.8"
proof -
  have le: "(273.15 :: real) \<le> 300" by simp
  have "greenhouse_effect 273.15 \<le> greenhouse_effect 300"
    using greenhouse_effect_clipped_monotone_bounded [of 0] le by blast
  moreover have "greenhouse_effect 273.15 = 0.61"
    using greenhouse_effect_clipped_monotone_bounded [of "273.15"] by simp
  moreover have "greenhouse_effect (-1000) = 0.5"
    using greenhouse_effect_clipped_monotone_bounded [of "-1000"] by simp
  moreover have "greenhouse_effect 3000 = 0.8"
    using greenhouse_effect_clipped_monotone_bounded [of 3000] by simp
  ultimately show ?thesis using le by blast
qed

section \<open>Energy balance: the formula\<close>

lemma energy_balance_formula:
  "energy_balance T m
     = (1 - albedo T) * (1365 * m) / 4 - greenhouse_effect T * (5.67 / 10 ^ 8) * T ^ 4"
  by (simp add: energy_balance_def Let_def SOLAR_CONSTANT_def STEFAN_BOLTZMANN_def)

section \<open>The equilibrium solver\<close>

lemma solver_loop_traced_fst:
  "fst (solver_loop_traced k dt T m tol calls) = solver_loop k dt T m tol"
  by (induction k arbitrary: T calls) (simp_all add: Let_def)

lemma find_equilibrium_temperature_traced_fst:
  "fst (find_equilibrium_temperature_traced T0 m n tol) = find_equilibrium_temperature T0 m n tol"
  by (simp add: find_equilibrium_temperature_traced_def find_equilibrium_temperature_def
        solver_loop_traced_fst)

lemma solver_loop_range:
  "fst (solver_loop k dt T m tol) = T
   \<or> (150 \<le> fst (solver_loop k dt T m tol) \<and> fst (solver_loop k dt T m tol) \<le> 400)"
proof (induction k arbitrary: T)
  case 0
  show ?case by simp
next
  case (Suc k)
  define T' where "T' = clip (T + dt * energy_balance T m) 150 400"
  have T': "150 \<le> T' \<and> T' \<le> 400"
    unfolding T'_def by (rule clip_bounds) simp
  show ?case
  proof (cases "\<bar>energy_balance T m\<bar> < tol")
    case True
    then show ?thesis by simp
  next
    case False
    then have eq: "solver_loop (Suc k) dt T m tol = solver_loop k dt T' m tol"
      by (simp add: T'_def)
    from Suc.IH [of T'] T' show ?thesis unfolding eq by auto
  qed
qed

lemma solver_loop_no_tolerance:
  "tol \<le> 0 \<Longrightarrow> solver_loop k 0.1 T m tol = ((solver_step m ^^ k) T, False)"
proof (induction k arbitrary: T)
  case 0
  show ?case by simp
next
  case (Suc k)
  from Suc.prems have "\<not> \<bar>energy_balance T m\<bar> < tol" by simp
  then have "solver_loop (Suc k) 0.1 T m tol = solver_loop k 0.1 (solver_step m T) m tol"
    by (simp add: solver_step_def)
  with Suc.IH [OF Suc.prems] show ?case by (simp add: funpow_swap1)
qed

lemma solver_loop_traced_no_tolerance:
  "tol \<le> 0 \<Longrightarrow> length (snd (solver_loop_traced k dt T m tol calls)) = length calls + k"
proof (induction k arbitrary: T calls)
  case 0
  show ?case by simp
next
  case (Suc k)
  from Suc.prems have "\<not> \<bar>energy_balance T m\<bar> < tol" by simp
  with Suc.IH [OF Suc.prems] show ?case by (simp add: Let_def)
qed

lemma energy_balance_500: "\<bar>energy_balance 500 1\<bar> < 2500"
proof -
  have g: "greenhouse_effect 500 = 0.632685"
    by (simp add: greenhouse_effect_def Let_def clip_def)
  have v: "(0.632685 :: real) * (5.67 / 10 ^ 8) * 500 ^ 4 = 71746479 / 32000"
    by simp
  have "energy_balance 500 1
          = (1 - albedo 500) * 1365 / 4 - 0.632685 * (5.67 / 10 ^ 8) * 500 ^ 4"
    by (simp add: energy_balance_def Let_def SOLAR_CONSTANT_def STEFAN_BOLTZMANN_def g)
  then have "energy_balance 500 1 = (1 - albedo 500) * 1365 / 4 - 71746479 / 32000"
    unfolding v .
  with albedo_gt [of 500] albedo_lt [of 500] show ?thesis
    unfolding abs_less_iff by argo
qed

lemma energy_balance_1000: "energy_balance 1000 1 < - 8500"
proof -
  have g: "greenhouse_effect 1000 = 0.682685"
    by (simp add: greenhouse_effect_def Let_def clip_def)
  have v: "(0.682685 :: real) * (5.67 / 10 ^ 8) * 1000 ^ 4 = 77416479 / 2000"
    by simp
  have "energy_balance 1000 1
          = (1 - albedo 1000) * 1365 / 4 - 0.682685 * (5.67 / 10 ^ 8) * 1000 ^ 4"
    by (simp add: energy_balance_def Let_def SOLAR_CONSTANT_def STEFAN_BOLTZMANN_def g)
  then have "energy_balance 1000 1 = (1 - albedo 1000) * 1365 / 4 - 77416479 / 2000"
    unfolding v .
  with albedo_gt [of 1000] show ?thesis by argo
qed

lemma solver_loop_updated_range:
  assumes "\<not> \<bar>energy_balance T m\<bar> < tol"
  shows "150 \<le> fst (solver_loop (Suc k) dt T m tol)
         \<and> fst (solver_loop (Suc k) dt T m tol) \<le> 400"
proof -
  define T' where "T' = clip (T + dt * energy_balance T m) 150 400"
  have T': "150 \<le> T' \<and> T' \<le> 400"
    unfolding T'_def by (rule clip_bounds) simp
  from assms have eq: "solver_loop (Suc k) dt T m tol = solver_loop k dt T' m tol"
    by (simp add: T'_def)
  from solver_loop_range [of k dt T' m tol] T' show ?thesis unfolding eq by auto
qed

subsection \<open>Calls with exceptions and module state\<close>

lemma double_overflow_bound: "(10 :: real) ^ 11 < 2 ^ 1024 - 2 ^ 970"
proof -
  define A :: real where "A = 2 ^ 970"
  have e: "(970 :: nat) + 54 = 1024" by simp
  have B: "(2 :: real) ^ 1024 = A * 2 ^ 54"
    unfolding A_def by (rule power_add [of "2 :: real" 970 54, unfolded e])
  have A0: "0 \<le> A" unfolding A_def by (rule zero_le_power) simp
  have "A * 2 \<le> A * 2 ^ 54" using A0 by (intro mult_left_mono) simp_all
  then have 1: "A \<le> A * 2 ^ 54 - A" using A0 by linarith
  have "(2 :: real) ^ 37 \<le> 2 ^ 970" by (rule power_increasing) simp_all
  then have 2: "(2 :: real) ^ 37 \<le> A" unfolding A_def .
  have 3: "(10 :: real) ^ 11 < 2 ^ 37" by simp
  from 1 2 3 have "(10 :: real) ^ 11 < A * 2 ^ 54 - A" by linarith
  then show ?thesis unfolding B A_def [symmetric] .
qed

lemma no_overflow_in_range:
  assumes "150 \<le> T" "T \<le> 400"
  shows "\<not> double_overflow (T ^ 4)"
proof -
  have "T ^ 4 \<le> 400 ^ 4" using assms by (intro power_mono) simp_all
  also have "\<dots> < (10 :: real) ^ 11" by simp
  also note double_overflow_bound
  finally have "T ^ 4 < 2 ^ 1024 - 2 ^ 970" .
  moreover have "0 \<le> T ^ 4" using assms by simp
  ultimately have "\<not> 2 ^ 1024 - 2 ^ 970 \<le> \<bar>T ^ 4\<bar>"
    by (simp only: abs_of_nonneg not_le)
  then show ?thesis unfolding double_overflow_def .
qed

lemma energy_balance_run_state: "snd (energy_balance_run s T m) = s"
  by (simp add: energy_balance_run_def Let_def split: sum.splits)

lemma energy_balance_run_overflow:
  "double_overflow (T ^ 4) \<Longrightarrow> energy_balance_run s T m = (Inl OverflowError, s)"
  by (simp add: energy_balance_run_def Let_def float_pow4_def)

lemma energy_balance_run_import:
  "\<not> double_overflow (T ^ 4) \<Longrightarrow>
   energy_balance_run (module_state_at_import seed) T m
     = (Inr (energy_balance T m), module_state_at_import seed)"
  by (simp add: energy_balance_run_def Let_def float_pow4_def energy_balance_def
        module_state_at_import_def SOLAR_CONSTANT_def STEFAN_BOLTZMANN_def)

lemma solver_loop_run_state: "snd (solver_loop_run k dt s T m tol) = s"
proof (induction k arbitrary: T)
  case 0
  show ?case by simp
next
  case (Suc k)
  obtain r s' where e: "energy_balance_run s T m = (r, s')"
    by (cases "energy_balance_run s T m")
  with energy_balance_run_state [of s T m] have s': "s' = s" by simp
  show ?case
  proof (cases r)
    case (Inl x)
    with e s' show ?thesis by simp
  next
    case (Inr balance)
    with e s' Suc.IH show ?thesis by simp
  qed
qed

lemma solver_loop_run_seed:
  "fst (solver_loop_run k dt (s\<lparr>np_random_state := j\<rparr>) T m tol)
   = fst (solver_loop_run k dt s T m tol)"
proof (induction k arbitrary: T)
  case 0
  show ?case by simp
next
  case (Suc k)
  have e: "energy_balance_run (s\<lparr>np_random_state := j\<rparr>) T m
           = (fst (energy_balance_run s T m), s\<lparr>np_random_state := j\<rparr>)"
    by (simp add: energy_balance_run_def Let_def split: sum.splits)
  have e': "energy_balance_run s T m = (fst (energy_balance_run s T m), s)"
    using energy_balance_run_state [of s T m] by (simp add: prod_eq_iff)
  show ?case
  proof (cases "fst (energy_balance_run s T m)")
    case (Inl x)
    then show ?thesis
      by (simp only: solver_loop_run.simps e prod.case sum.case) (subst e', simp)
  next
    case (Inr balance)
    then show ?thesis
      by (simp only: solver_loop_run.simps e prod.case sum.case) (subst e', simp add: Suc.IH)
  qed
qed

lemma solver_loop_run_in_range:
  assumes "150 \<le> T" "T \<le> 400"
  shows "solver_loop_run k 0.1 (module_state_at_import seed) T m tol
         = (Inr (solver_loop k 0.1 T m tol), module_state_at_import seed)"
  using assms
proof (induction k arbitrary: T)
  case 0
  show ?case by simp
next
  case (Suc k)
  have e: "energy_balance_run (module_state_at_import seed) T m
     = (Inr (energy_balance T m), module_state_at_import seed)"
    using Suc.prems by (intro energy_balance_run_import no_overflow_in_range)
  have next_range: "150 \<le> clip (T + 0.1 * energy_balance T m) 150 400
                    \<and> clip (T + 0.1 * energy_balance T m) 150 400 \<le> 400"
    by (rule clip_bounds) simp
  show ?case using Suc.IH next_range by (simp add: e)
qed

lemma solver_loop_run_import:
  "solver_loop_run k 0.1 (module_state_at_import seed) T m tol
   = (if 0 < k \<and> double_overflow (T ^ 4) then Inl OverflowError
      else Inr (solver_loop k 0.1 T m tol), module_state_at_import seed)"
proof (cases k)
  case 0
  then show ?thesis by simp
next
  case (Suc j)
  show ?thesis
  proof (cases "double_overflow (T ^ 4)")
    case True
    then show ?thesis by (simp add: Suc energy_balance_run_overflow)
  next
    case False
    have next_range: "150 \<le> clip (T + 0.1 * energy_balance T m) 150 400
                    \<and> clip (T + 0.1 * energy_balance T m) 150 400 \<le> 400"
      by (rule clip_bounds) simp
    from False show ?thesis
      using solver_loop_run_in_range [of "clip (T + 0.1 * energy_balance T m) 150 400" j seed m tol]
        next_range
      by (simp add: Suc energy_balance_run_import)
  qed
qed

lemma find_equilibrium_temperature_run_import:
  "find_equilibrium_temperature_run (module_state_at_import seed) T0 m n tol
   = (if 0 < n \<and> double_overflow (T0 ^ 4) then Inl OverflowError
      else Inr (find_equilibrium_temperature T0 m n tol), module_state_at_import seed)"
  by (simp add: find_equilibrium_temperature_run_def find_equilibrium_temperature_def
        solver_loop_run_import)

lemma overflow_10_78: "double_overflow ((10 ^ 78 :: real) ^ 4)"
proof -
  define A :: real where "A = 2 ^ 970"
  define B :: real where "B = 2 ^ 1023"
  define C :: real where "C = 10 ^ 310"
  have e1: "(33 :: nat) * 31 = 1023" and e2: "(10 :: nat) * 31 = 310"
    and e3: "(78 :: nat) * 4 = 312" and e4: "(310 :: nat) + 2 = 312"
    and e5: "(1023 :: nat) + 1 = 1024"
    by simp_all
  have "((2 :: real) ^ 33) ^ 31 \<le> (10 ^ 10) ^ 31" by (intro power_mono) simp_all
  then have BC: "B \<le> C"
    unfolding B_def C_def power_mult [symmetric] e1 e2 .
  have B0: "0 \<le> B" unfolding B_def by (rule zero_le_power) simp
  have A0: "0 \<le> A" unfolding A_def by (rule zero_le_power) simp
  have C0: "0 \<le> C" using BC B0 by simp
  have p: "(2 :: real) ^ 1024 = B * 2 ^ 1"
    unfolding B_def by (rule power_add [of "2 :: real" 1023 1, unfolded e5])
  have q: "(10 :: real) ^ 312 = C * 10 ^ 2"
    unfolding C_def by (rule power_add [of "10 :: real" 310 2, unfolded e4])
  have "B * 2 ^ 1 \<le> C * 10 ^ 2" using BC B0 C0 by (intro mult_mono) simp_all
  with A0 have le: "B * 2 ^ 1 - A \<le> C * 10 ^ 2" by linarith
  have r: "\<bar>((10 :: real) ^ 78) ^ 4\<bar> = C * 10 ^ 2"
    unfolding q [symmetric] power_mult [symmetric] e3
    by (rule abs_of_nonneg) (rule zero_le_power, simp)
  from le show ?thesis
    unfolding double_overflow_def r p A_def [symmetric] .
qed

subsection \<open>Determinism, range and the initial temperature\<close>

text \<open>
  Claim C5. The solver is deterministic: two calls with identical arguments return
  identical results. A call, an exception included, is here a transformer of the module
  state. A call leaves the state as it found it, so that a second call with the same
  arguments starts from the same state and has the same outcome; the outcome does not
  depend on the state of the random generator; and from the state that the module has
  at import, the outcome is \<^verbatim>\<open>OverflowError\<close> when the loop runs and the fourth power of
  the initial temperature overflows, and the value of \<open>find_equilibrium_temperature\<close>,
  a function of the four arguments, in every other case.
\<close>

theorem find_equilibrium_temperature_deterministic:
  "(case find_equilibrium_temperature_run s initial_temp solar_multiplier
           max_iterations tolerance of
      (r1, s1) \<Rightarrow>
        (case find_equilibrium_temperature_run s1 initial_temp solar_multiplier
                max_iterations tolerance of
           (r2, s2) \<Rightarrow> r1 = r2 \<and> s1 = s \<and> s2 = s))
   \<and> fst (find_equilibrium_temperature_run (s\<lparr>np_random_state := k\<rparr>) initial_temp
            solar_multiplier max_iterations tolerance)
     = fst (find_equilibrium_temperature_run s initial_temp solar_multiplier
              max_iterations tolerance)
   \<and> fst (find_equilibrium_temperature_run (module_state_at_import seed) initial_temp
            solar_multiplier max_iterations tolerance)
     = (if 0 < max_iterations \<and> double_overflow (initial_temp ^ 4) then Inl OverflowError
        else Inr (find_equilibrium_temperature initial_temp solar_multiplier
                    max_iterations tolerance))"
proof (intro conjI)
  obtain r1 s1 where first: "find_equilibrium_temperature_run s initial_temp solar_multiplier
           max_iterations tolerance = (r1, s1)"
    by (cases "find_equilibrium_temperature_run s initial_temp solar_multiplier
           max_iterations tolerance")
  have "snd (find_equilibrium_temperature_run s initial_temp solar_multiplier
           max_iterations tolerance) = s"
    by (simp add: find_equilibrium_temperature_run_def solver_loop_run_state)
  with first have s1: "s1 = s" by simp
  show "case find_equilibrium_temperature_run s initial_temp solar_multiplier
           max_iterations tolerance of
      (r1, s1) \<Rightarrow>
        (case find_equilibrium_temperature_run s1 initial_temp solar_multiplier
                max_iterations tolerance of
           (r2, s2) \<Rightarrow> r1 = r2 \<and> s1 = s \<and> s2 = s)"
    unfolding first prod.case s1 by simp
  show "fst (find_equilibrium_temperature_run (s\<lparr>np_random_state := k\<rparr>) initial_temp
            solar_multiplier max_iterations tolerance)
     = fst (find_equilibrium_temperature_run s initial_temp solar_multiplier
              max_iterations tolerance)"
    by (simp add: find_equilibrium_temperature_run_def solver_loop_run_seed)
  show "fst (find_equilibrium_temperature_run (module_state_at_import seed) initial_temp
            solar_multiplier max_iterations tolerance)
     = (if 0 < max_iterations \<and> double_overflow (initial_temp ^ 4) then Inl OverflowError
        else Inr (find_equilibrium_temperature initial_temp solar_multiplier
                    max_iterations tolerance))"
    by (simp add: find_equilibrium_temperature_run_import)
qed

text \<open>
  Claim C1, as stated: for all arguments the temperature returned lies between 150 and
  400. It fails when no update takes place: with \<open>max_iterations = 0\<close> the initial
  temperature 500 is returned as it is.
\<close>

theorem find_equilibrium_temperature_range_counterexample:
  "\<not> (150 \<le> fst (find_equilibrium_temperature 500 1 0 0.01)
      \<and> fst (find_equilibrium_temperature 500 1 0 0.01) \<le> 400)"
  by (simp add: find_equilibrium_temperature_def)

text \<open>
  Claim C1, amended. The temperature returned is the initial temperature itself when no
  update has taken place, that is when \<open>max_iterations\<close> is zero or negative or the
  balance at the initial temperature is within the tolerance. In every other case, and
  also whenever the initial temperature lies between 150 and 400, the temperature
  returned lies between 150 and 400.
\<close>

theorem find_equilibrium_temperature_range:
  "(max_iterations \<le> 0 \<or> \<bar>energy_balance initial_temp solar_multiplier\<bar> < tolerance
      \<longrightarrow> fst (find_equilibrium_temperature initial_temp solar_multiplier
                 max_iterations tolerance) = initial_temp)
   \<and> (0 < max_iterations \<and> \<not> \<bar>energy_balance initial_temp solar_multiplier\<bar> < tolerance
      \<longrightarrow> 150 \<le> fst (find_equilibrium_temperature initial_temp solar_multiplier
                        max_iterations tolerance)
          \<and> fst (find_equilibrium_temperature initial_temp solar_multiplier
                   max_iterations tolerance) \<le> 400)
   \<and> (150 \<le> initial_temp \<and> initial_temp \<le> 400
      \<longrightarrow> 150 \<le> fst (find_equilibrium_temperature initial_temp solar_multiplier
                        max_iterations tolerance)
          \<and> fst (find_equilibrium_temperature initial_temp solar_multiplier
                   max_iterations tolerance) \<le> 400)"
proof -
  define r where
    "r = fst (find_equilibrium_temperature initial_temp solar_multiplier max_iterations tolerance)"
  have r: "r = fst (solver_loop (nat max_iterations) 0.1 initial_temp solar_multiplier tolerance)"
    by (simp add: r_def find_equilibrium_temperature_def)
  have same: "r = initial_temp"
    if "max_iterations \<le> 0 \<or> \<bar>energy_balance initial_temp solar_multiplier\<bar> < tolerance"
  proof (cases "nat max_iterations")
    case 0
    then show ?thesis by (simp add: r)
  next
    case (Suc k)
    then have "0 < max_iterations" by simp
    with that have "\<bar>energy_balance initial_temp solar_multiplier\<bar> < tolerance" by simp
    then show ?thesis by (simp add: r Suc)
  qed
  have updated: "150 \<le> r \<and> r \<le> 400"
    if "0 < max_iterations \<and> \<not> \<bar>energy_balance initial_temp solar_multiplier\<bar> < tolerance"
  proof -
    from that obtain k where k: "nat max_iterations = Suc k"
      by (cases "nat max_iterations") auto
    from that solver_loop_updated_range [of initial_temp solar_multiplier tolerance k "0.1"]
    show ?thesis by (simp add: r k)
  qed
  have inside: "150 \<le> r \<and> r \<le> 400" if "150 \<le> initial_temp \<and> initial_temp \<le> 400"
    using that solver_loop_range [of "nat max_iterations" "0.1" initial_temp
        solar_multiplier tolerance]
    by (auto simp: r)
  from same updated inside show ?thesis unfolding r_def by blast
qed

theorem find_equilibrium_temperature_range_witness:
  "(0 :: int) \<le> 0 \<and> fst (find_equilibrium_temperature 500 1 0 0.01) = 500
   \<and> (0 :: int) < 1 \<and> \<not> \<bar>energy_balance 1000 1\<bar> < 0.01
   \<and> 150 \<le> fst (find_equilibrium_temperature 1000 1 1 0.01)
   \<and> fst (find_equilibrium_temperature 1000 1 1 0.01) \<le> 400
   \<and> \<not> (1000 :: real) \<le> 400
   \<and> (150 :: real) \<le> 288 \<and> (288 :: real) \<le> 400
   \<and> 150 \<le> fst (find_equilibrium_temperature 288 1 1000 0.01)
   \<and> fst (find_equilibrium_temperature 288 1 1000 0.01) \<le> 400"
proof -
  have a: "(0 :: int) \<le> 0 \<or> \<bar>energy_balance 500 1\<bar> < 0.01" by simp
  from a find_equilibrium_temperature_range [of 0 500 1 "0.01"]
  have a': "fst (find_equilibrium_temperature 500 1 0 0.01) = 500" by blast
  have b: "(0 :: int) < 1 \<and> \<not> \<bar>energy_balance 1000 1\<bar> < 0.01"
    using energy_balance_1000 by simp
  from b find_equilibrium_temperature_range [of 1 1000 1 "0.01"]
  have b': "150 \<le> fst (find_equilibrium_temperature 1000 1 1 0.01)
            \<and> fst (find_equilibrium_temperature 1000 1 1 0.01) \<le> 400" by blast
  have c: "(150 :: real) \<le> 288 \<and> (288 :: real) \<le> 400" by simp
  from c find_equilibrium_temperature_range [of 1000 288 1 "0.01"]
  have c': "150 \<le> fst (find_equilibrium_temperature 288 1 1000 0.01)
            \<and> fst (find_equilibrium_temperature 288 1 1000 0.01) \<le> 400" by blast
  from a' b b' c c' show ?thesis by simp
qed

text \<open>
  Claim C10. The solver never clamps or changes the initial temperature before the
  first convergence check. With \<open>max_iterations \<le> 0\<close> it returns the initial temperature
  and \<open>False\<close> and evaluates the energy balance nowhere; when the loop runs and the balance
  at the initial temperature is within the tolerance it returns the initial temperature
  and \<open>True\<close>, having evaluated the energy balance there only. Nothing is assumed about
  the initial temperature, which may lie outside the interval from 150 to 400.
\<close>

theorem find_equilibrium_temperature_initial_temp_unclamped:
  "(max_iterations \<le> 0 \<longrightarrow>
      find_equilibrium_temperature initial_temp solar_multiplier max_iterations tolerance
        = (initial_temp, False)
      \<and> find_equilibrium_temperature_traced initial_temp solar_multiplier max_iterations tolerance
        = ((initial_temp, False), []))
   \<and> (0 < max_iterations \<and> \<bar>energy_balance initial_temp solar_multiplier\<bar> < tolerance \<longrightarrow>
      find_equilibrium_temperature initial_temp solar_multiplier max_iterations tolerance
        = (initial_temp, True)
      \<and> find_equilibrium_temperature_traced initial_temp solar_multiplier max_iterations tolerance
        = ((initial_temp, True), [initial_temp]))"
proof (intro conjI impI)
  assume "max_iterations \<le> 0"
  then have n: "nat max_iterations = 0" by simp
  show "find_equilibrium_temperature initial_temp solar_multiplier max_iterations tolerance
        = (initial_temp, False)"
    by (simp add: find_equilibrium_temperature_def n)
  show "find_equilibrium_temperature_traced initial_temp solar_multiplier max_iterations tolerance
        = ((initial_temp, False), [])"
    by (simp add: find_equilibrium_temperature_traced_def n)
next
  assume h: "0 < max_iterations \<and> \<bar>energy_balance initial_temp solar_multiplier\<bar> < tolerance"
  then obtain k where n: "nat max_iterations = Suc k"
    by (cases "nat max_iterations") auto
  show "find_equilibrium_temperature initial_temp solar_multiplier max_iterations tolerance
        = (initial_temp, True)"
    using h by (simp add: find_equilibrium_temperature_def n)
  show "find_equilibrium_temperature_traced initial_temp solar_multiplier max_iterations tolerance
        = ((initial_temp, True), [initial_temp])"
    using h by (simp add: find_equilibrium_temperature_traced_def n)
qed

theorem find_equilibrium_temperature_initial_temp_unclamped_witness:
  "(0 :: int) \<le> 0
   \<and> find_equilibrium_temperature 500 1 0 0.01 = (500, False)
   \<and> find_equilibrium_temperature_traced 500 1 0 0.01 = ((500, False), [])
   \<and> (0 :: int) < 1000 \<and> \<bar>energy_balance 500 1\<bar> < 2500
   \<and> find_equilibrium_temperature 500 1 1000 2500 = (500, True)
   \<and> find_equilibrium_temperature_traced 500 1 1000 2500 = ((500, True), [500])
   \<and> \<not> (500 :: real) \<le> 400"
proof -
  have a: "(0 :: int) \<le> 0" by simp
  have b: "(0 :: int) < 1000 \<and> \<bar>energy_balance 500 1\<bar> < 2500"
    using energy_balance_500 by simp
  from a find_equilibrium_temperature_initial_temp_unclamped [of 0 500 1 "0.01"]
  have c: "find_equilibrium_temperature 500 1 0 0.01 = (500, False)
           \<and> find_equilibrium_temperature_traced 500 1 0 0.01 = ((500, False), [])"
    by blast
  from b find_equilibrium_temperature_initial_temp_unclamped [of 1000 500 1 2500]
  have d: "find_equilibrium_temperature 500 1 1000 2500 = (500, True)
           \<and> find_equilibrium_temperature_traced 500 1 1000 2500 = ((500, True), [500])"
    by blast
  from a b c d show ?thesis by simp
qed

subsection \<open>Refinement of the specification's algorithm\<close>

lemma spec_clamp_clip: "spec_clamp T = clip T 150 400"
  by (simp add: spec_clamp_def clip_def min_def max_def)

lemma spec_iteration_returned:
  "returned s = Some r \<Longrightarrow> (spec_iteration m tol ^^ k) s = s"
  by (induction k) (simp_all add: spec_iteration_def)

lemma spec_run_solver_loop:
  "(let s = (spec_iteration m tol ^^ k) \<lparr>temp = T, returned = None\<rparr>
    in case returned s of Some r \<Rightarrow> r | None \<Rightarrow> (temp s, False))
   = solver_loop k 0.1 T m tol"
proof (induction k arbitrary: T)
  case 0
  show ?case by simp
next
  case (Suc k)
  let ?s0 = "\<lparr>temp = T, returned = None\<rparr>"
  have unroll: "(spec_iteration m tol ^^ Suc k) ?s0
                = (spec_iteration m tol ^^ k) (spec_iteration m tol ?s0)"
    by (simp only: funpow_Suc_right o_apply)
  show ?case
  proof (cases "\<bar>energy_balance T m\<bar> < tol")
    case True
    then have step: "spec_iteration m tol ?s0 = \<lparr>temp = T, returned = Some (T, True)\<rparr>"
      by (simp add: spec_iteration_def)
    have "(spec_iteration m tol ^^ k) \<lparr>temp = T, returned = Some (T, True)\<rparr>
          = \<lparr>temp = T, returned = Some (T, True)\<rparr>"
      by (rule spec_iteration_returned) simp
    with True step show ?thesis unfolding unroll by simp
  next
    case False
    then have step: "spec_iteration m tol ?s0
        = \<lparr>temp = clip (T + 0.1 * energy_balance T m) 150 400, returned = None\<rparr>"
      by (simp add: spec_iteration_def spec_clamp_clip)
    from False Suc.IH [of "clip (T + 0.1 * energy_balance T m) 150 400"] show ?thesis
      unfolding unroll step by simp
  qed
qed

text \<open>
  Claim C2. The solver is exactly the loop of the specification: starting from the
  initial temperature it repeats at most \<open>max_iterations\<close> times: compute the balance;
  return the temperature and \<open>True\<close> if the absolute balance is below the tolerance;
  otherwise add 0.1 times the balance and clamp into the interval from 150 to 400; when
  the loop is exhausted it returns the last temperature and \<open>False\<close>.
\<close>

theorem find_equilibrium_temperature_refines_spec:
  "find_equilibrium_temperature initial_temp solar_multiplier max_iterations tolerance
   = spec_find_equilibrium_temperature initial_temp solar_multiplier max_iterations tolerance"
  unfolding find_equilibrium_temperature_def spec_find_equilibrium_temperature_def
  using spec_run_solver_loop [where m = solar_multiplier and tol = tolerance
      and k = "nat max_iterations" and T = initial_temp]
  by (simp add: Let_def)

subsection \<open>Validation of the configuration\<close>

text \<open>
  Claim C3, as stated: the solver fails fast with an invalid-configuration condition,
  rather than iterating or returning a normal result, whenever the tolerance is zero or
  negative, and requires \<open>max_iterations\<close> and the tolerance to be positive. It does
  not: with tolerance 0 and with tolerance -1 the call from 288 K returns a normal
  result, after evaluating the energy balance in each of the 1000 iterations, and with
  \<open>max_iterations = 0\<close> it returns a normal result as well.
\<close>

theorem find_equilibrium_temperature_fail_fast_counterexample:
  "fst (find_equilibrium_temperature_run (module_state_at_import 0) 288 1 1000 0)
     = Inr ((solver_step 1 ^^ 1000) 288, False)
   \<and> fst (find_equilibrium_temperature_run (module_state_at_import 0) 288 1 1000 (- 1))
     = Inr ((solver_step 1 ^^ 1000) 288, False)
   \<and> length (snd (find_equilibrium_temperature_traced 288 1 1000 0)) = 1000
   \<and> fst (find_equilibrium_temperature_run (module_state_at_import 0) 288 1 0 0.01)
     = Inr (288, False)"
proof -
  have no: "\<not> double_overflow ((288 :: real) ^ 4)"
    by (rule no_overflow_in_range) simp_all
  have n: "nat 1000 = 1000" by simp
  have a: "fst (find_equilibrium_temperature_run (module_state_at_import 0) 288 1 1000 0)
     = Inr ((solver_step 1 ^^ 1000) 288, False)"
    using solver_loop_no_tolerance [of 0 1000 288 1] no
    by (simp add: find_equilibrium_temperature_run_import find_equilibrium_temperature_def)
  have b: "fst (find_equilibrium_temperature_run (module_state_at_import 0) 288 1 1000 (- 1))
     = Inr ((solver_step 1 ^^ 1000) 288, False)"
    using solver_loop_no_tolerance [of "- 1" 1000 288 1] no
    by (simp add: find_equilibrium_temperature_run_import find_equilibrium_temperature_def)
  have c: "length (snd (find_equilibrium_temperature_traced 288 1 1000 0)) = 1000"
    using solver_loop_traced_no_tolerance [of 0 1000 "0.1" 288 1 "[]"]
    by (simp add: find_equilibrium_temperature_traced_def)
  have d: "fst (find_equilibrium_temperature_run (module_state_at_import 0) 288 1 0 0.01)
     = Inr (288, False)"
    by (simp add: find_equilibrium_temperature_run_import find_equilibrium_temperature_def)
  from a b c d show ?thesis by (intro conjI)
qed

text \<open>
  Claim C3, amended. The solver validates none of its arguments. With a zero or
  negative tolerance the convergence test never succeeds. If the loop runs and the
  fourth power of the initial temperature overflows the range of a double, the first
  evaluation of the energy balance raises \<^verbatim>\<open>OverflowError\<close>, whatever the tolerance;
  otherwise the solver evaluates the energy balance in each of the \<open>max_iterations\<close>
  iterations and returns the temperature reached by that many clamped updates, with
  \<open>False\<close>. With \<open>max_iterations\<close> zero or negative it returns the initial temperature
  with \<open>False\<close>.
\<close>

theorem find_equilibrium_temperature_no_validation:
  "(tolerance \<le> 0 \<longrightarrow>
      (if 0 < max_iterations \<and> double_overflow (initial_temp ^ 4)
       then fst (find_equilibrium_temperature_run (module_state_at_import seed)
                   initial_temp solar_multiplier max_iterations tolerance)
              = Inl OverflowError
       else fst (find_equilibrium_temperature_run (module_state_at_import seed)
                   initial_temp solar_multiplier max_iterations tolerance)
              = Inr ((solver_step solar_multiplier ^^ nat max_iterations) initial_temp, False)
            \<and> length (snd (find_equilibrium_temperature_traced initial_temp solar_multiplier
                             max_iterations tolerance)) = nat max_iterations))
   \<and> (0 < max_iterations \<and> double_overflow (initial_temp ^ 4) \<longrightarrow>
      fst (find_equilibrium_temperature_run (module_state_at_import seed)
             initial_temp solar_multiplier max_iterations tolerance)
        = Inl OverflowError)
   \<and> (max_iterations \<le> 0 \<longrightarrow>
      fst (find_equilibrium_temperature_run (module_state_at_import seed)
             initial_temp solar_multiplier max_iterations tolerance)
        = Inr (initial_temp, False))"
proof -
  define r where
    "r = fst (find_equilibrium_temperature_run (module_state_at_import seed)
                initial_temp solar_multiplier max_iterations tolerance)"
  have r: "r = (if 0 < max_iterations \<and> double_overflow (initial_temp ^ 4)
                then Inl OverflowError
                else Inr (find_equilibrium_temperature initial_temp solar_multiplier
                            max_iterations tolerance))"
    by (simp add: r_def find_equilibrium_temperature_run_import)
  have raised: "r = Inl OverflowError"
    if "0 < max_iterations \<and> double_overflow (initial_temp ^ 4)"
    using that by (simp add: r)
  have all_iterations:
    "r = Inr ((solver_step solar_multiplier ^^ nat max_iterations) initial_temp, False)
     \<and> length (snd (find_equilibrium_temperature_traced initial_temp solar_multiplier
                      max_iterations tolerance)) = nat max_iterations"
    if tol: "tolerance \<le> 0" and no: "\<not> (0 < max_iterations \<and> double_overflow (initial_temp ^ 4))"
  proof
    show "r = Inr ((solver_step solar_multiplier ^^ nat max_iterations) initial_temp, False)"
      using no solver_loop_no_tolerance [OF tol]
      by (simp add: r find_equilibrium_temperature_def)
    show "length (snd (find_equilibrium_temperature_traced initial_temp solar_multiplier
                         max_iterations tolerance)) = nat max_iterations"
      using solver_loop_traced_no_tolerance [OF tol, of "nat max_iterations" _ _ _ "[]"]
      by (simp add: find_equilibrium_temperature_traced_def)
  qed
  have no_iteration: "r = Inr (initial_temp, False)" if "max_iterations \<le> 0"
    using that by (simp add: r find_equilibrium_temperature_def)
  from raised all_iterations no_iteration show ?thesis
    unfolding r_def by (simp only: split: if_split) blast
qed

theorem find_equilibrium_temperature_no_validation_witness:
  "(0 :: real) \<le> 0 \<and> (0 :: int) < 2 \<and> (- 5 :: int) \<le> 0
   \<and> \<not> double_overflow ((288 :: real) ^ 4)
   \<and> fst (find_equilibrium_temperature_run (module_state_at_import 0) 288 1 2 0)
       = Inr (solver_step 1 (solver_step 1 288), False)
   \<and> length (snd (find_equilibrium_temperature_traced 288 1 2 0)) = 2
   \<and> double_overflow ((10 ^ 78 :: real) ^ 4)
   \<and> fst (find_equilibrium_temperature_run (module_state_at_import 0) (10 ^ 78) 1 2 0)
       = Inl OverflowError
   \<and> fst (find_equilibrium_temperature_run (module_state_at_import 0) (10 ^ 78) 1 2 0.01)
       = Inl OverflowError
   \<and> fst (find_equilibrium_temperature_run (module_state_at_import 0) 288 1 (- 5) 0.01)
       = Inr (288, False)"
proof -
  have a: "(0 :: real) \<le> 0" and b: "(- 5 :: int) \<le> 0" and p: "(0 :: int) < 2"
    by simp_all
  have no: "\<not> double_overflow ((288 :: real) ^ 4)"
    by (rule no_overflow_in_range) simp_all
  have c: "fst (find_equilibrium_temperature_run (module_state_at_import 0) 288 1 2 0)
             = Inr (solver_step 1 (solver_step 1 288), False)
           \<and> length (snd (find_equilibrium_temperature_traced 288 1 2 0)) = 2"
    using a no find_equilibrium_temperature_no_validation [of 0 2 288 0 1]
    by (simp add: numeral_2_eq_2)
  have d: "fst (find_equilibrium_temperature_run (module_state_at_import 0) (10 ^ 78) 1 2 0)
       = Inl OverflowError"
    using a p overflow_10_78 find_equilibrium_temperature_no_validation [of 0 2 "10 ^ 78" 0 1]
    by simp
  have d': "fst (find_equilibrium_temperature_run (module_state_at_import 0) (10 ^ 78) 1 2 0.01)
       = Inl OverflowError"
    using p overflow_10_78
      find_equilibrium_temperature_no_validation [of "0.01" 2 "10 ^ 78" 0 1]
    by simp
  have e: "fst (find_equilibrium_temperature_run (module_state_at_import 0) 288 1 (- 5) 0.01)
       = Inr (288, False)"
    using b find_equilibrium_temperature_no_validation [of "0.01" "- 5" 288 0 1]
    by simp
  from a b p no c d d' e overflow_10_78 show ?thesis by simp
qed

section \<open>The experiment sweep\<close>

lemma sweep_loop_step:
  "sweep_loop (m # ms) temps = sweep_loop ms (temps @ [chosen_equilibrium m])"
proof -
  obtain Tw cw where w: "find_equilibrium_temperature 288 m 1000 0.01 = (Tw, cw)"
    by (cases "find_equilibrium_temperature 288 m 1000 0.01")
  obtain Tc cc where c: "find_equilibrium_temperature 230 m 1000 0.01 = (Tc, cc)"
    by (cases "find_equilibrium_temperature 230 m 1000 0.01")
  show ?thesis
    by (cases cw; cases cc)
       (simp_all only: sweep_loop.simps chosen_equilibrium_def w c Let_def prod.case
          fst_conv snd_conv if_True if_False)
qed

lemma sweep_loop_map: "sweep_loop ms temps = temps @ map chosen_equilibrium ms"
proof (induction ms arbitrary: temps)
  case Nil
  show ?case by simp
next
  case (Cons m ms)
  show ?case unfolding sweep_loop_step Cons.IH by simp
qed

lemma linspace_map:
  assumes num: "1 < num"
  shows "linspace start stop num
     = map (\<lambda>i. real i * ((stop - start) / real (num - 1)) + start) [0..<num]"
proof -
  define y where "y = map (\<lambda>i. real i * ((stop - start) / real (num - 1)) + start) [0..<num]"
  have "y ! (num - 1) = stop" using num by (simp add: y_def)
  then have "y[num - 1 := stop] = y"
    using list_update_id [of y "num - 1"] by simp
  moreover have "linspace start stop num = y[num - 1 := stop]"
    using num by (simp add: linspace_def Let_def y_def)
  ultimately show ?thesis by (simp add: y_def)
qed

lemma linspace_sorted:
  assumes le: "start \<le> stop"
  shows "sorted (linspace start stop num)"
proof (cases "1 < num")
  case True
  define step where "step = (stop - start) / real (num - 1)"
  have step: "0 \<le> step" using le by (simp add: step_def)
  have "sorted (map (\<lambda>i. real i * step + start) [0..<num])"
    unfolding sorted_map
    by (rule sorted_wrt_mono_rel [OF _ sorted_upt [of 0 num]])
       (simp add: mult_right_mono [OF _ step])
  with True show ?thesis by (simp add: linspace_map step_def)
next
  case False
  then consider "num = 0" | "num = 1" by arith
  then show ?thesis
  proof cases
    case 1
    then show ?thesis by (simp add: linspace_def)
  next
    case 2
    then show ?thesis by (simp add: linspace_def)
  qed
qed

lemma linspace_length: "length (linspace start stop num) = num"
  by (simp add: linspace_def Let_def)

lemma sorted_hd_le:
  "sorted (xs :: nat list) \<Longrightarrow> x \<in> set xs \<Longrightarrow> hd xs \<le> x"
  by (cases xs) auto

lemma where_true_hd:
  assumes "list_ex (\<lambda>b. b) bs"
  shows "hd (where_true bs) < length bs \<and> bs ! hd (where_true bs)
         \<and> (\<forall>j < hd (where_true bs). \<not> bs ! j)"
proof -
  from assms obtain i where i: "i < length bs" "bs ! i"
    by (auto simp: list_ex_iff in_set_conv_nth)
  then have "i \<in> set (where_true bs)"
    by (simp add: where_true_def)
  then have ne: "where_true bs \<noteq> []" by auto
  then have mem: "hd (where_true bs) \<in> set (where_true bs)" by simp
  have sorted: "sorted (where_true bs)"
    unfolding where_true_def by (rule sorted_wrt_filter) simp
  have first: "\<not> bs ! j" if "j < hd (where_true bs)" for j
  proof
    assume bj: "bs ! j"
    from mem have "hd (where_true bs) < length bs" by (simp add: where_true_def)
    with that have "j < length bs" by simp
    with bj have "j \<in> set (where_true bs)" by (simp add: where_true_def)
    with sorted have "hd (where_true bs) \<le> j" by (rule sorted_hd_le)
    with that show False by simp
  qed
  from mem have "hd (where_true bs) < length bs \<and> bs ! hd (where_true bs)"
    by (simp add: where_true_def)
  with first show ?thesis by simp
qed

lemma critical_solar_multiplier_char:
  assumes len: "length temps = length ms" and srt: "sorted ms"
  shows "case critical_solar_multiplier ms temps of
           None \<Rightarrow> (\<forall>i<length ms. \<not> (\<exists>v. temps ! i = Some v \<and> v < 273.15))
         | Some c \<Rightarrow>
             (\<exists>i<length ms. c = ms ! i
                \<and> (\<exists>v. temps ! i = Some v \<and> v < 273.15)
                \<and> (\<forall>j<i. \<not> (\<exists>v. temps ! j = Some v \<and> v < 273.15))
                \<and> (\<forall>j<length ms. (\<exists>v. temps ! j = Some v \<and> v < 273.15) \<longrightarrow> c \<le> ms ! j))"
proof -
  define below where "below t \<longleftrightarrow> (\<exists>v. t = Some v \<and> v < (273.15::real))" for t
  have below_less_nan: "less_nan t 273.15 = below t" for t
    by (cases t) (simp_all add: less_nan_def below_def)
  define bs where "bs = map (\<lambda>t. less_nan t 273.15) temps"
  have bs_nth: "bs ! i = below (temps ! i)" if "i < length ms" for i
  proof -
    from that len have "i < length temps" by simp
    then show ?thesis by (simp only: bs_def nth_map below_less_nan)
  qed
  have bs_len: "length bs = length ms" by (simp add: bs_def len)
  have goal: "case critical_solar_multiplier ms temps of
           None \<Rightarrow> (\<forall>i<length ms. \<not> below (temps ! i))
         | Some c \<Rightarrow>
             (\<exists>i<length ms. c = ms ! i \<and> below (temps ! i)
                \<and> (\<forall>j<i. \<not> below (temps ! j))
                \<and> (\<forall>j<length ms. below (temps ! j) \<longrightarrow> c \<le> ms ! j))"
  proof (cases "list_ex (\<lambda>b. b) bs")
    case False
    then have none: "critical_solar_multiplier ms temps = None"
      by (simp add: critical_solar_multiplier_def bs_def)
    have "\<not> below (temps ! i)" if "i < length ms" for i
    proof -
      from that bs_len have "bs ! i \<in> set bs" by simp
      with False have "\<not> bs ! i" unfolding list_ex_iff by blast
      with bs_nth [OF that] show ?thesis by simp
    qed
    then show ?thesis unfolding none by simp
  next
    case True
    define i where "i = hd (where_true bs)"
    from True have some: "critical_solar_multiplier ms temps = Some (ms ! i)"
      by (simp add: critical_solar_multiplier_def bs_def i_def Let_def)
    from where_true_hd [OF True]
    have i1: "i < length ms" and i2: "bs ! i" and i3: "\<forall>j<i. \<not> bs ! j"
      by (simp_all add: i_def bs_len)
    have a: "below (temps ! i)"
      using bs_nth [OF i1] i2 by simp
    have b: "\<not> below (temps ! j)" if "j < i" for j
    proof -
      from that i1 have "j < length ms" by simp
      from bs_nth [OF this] i3 that show ?thesis by simp
    qed
    have c: "ms ! i \<le> ms ! j" if "j < length ms" "below (temps ! j)" for j
    proof -
      from that bs_nth have "bs ! j" by simp
      with i3 have "\<not> j < i" by blast
      then have "i \<le> j" by simp
      with srt that(1) show ?thesis by (simp add: sorted_nth_mono)
    qed
    from a b c have "ms ! i = ms ! i \<and> below (temps ! i)
                \<and> (\<forall>j<i. \<not> below (temps ! j))
                \<and> (\<forall>j<length ms. below (temps ! j) \<longrightarrow> ms ! i \<le> ms ! j)"
      by blast
    with i1 have "\<exists>k<length ms. ms ! i = ms ! k \<and> below (temps ! k)
                \<and> (\<forall>j<k. \<not> below (temps ! j))
                \<and> (\<forall>j<length ms. below (temps ! j) \<longrightarrow> ms ! i \<le> ms ! j)"
      by (intro exI [of _ i] conjI) blast+
    then show ?thesis unfolding some by (simp only: option.case)
  qed
  then show ?thesis unfolding below_def .
qed

text \<open>
  Claim C8. For each solar multiplier of the sweep the experiment runs the solver
  twice, seeded at 288 K and at 230 K, and records the warm-seeded temperature if the
  warm run converged, else the cold-seeded temperature if the cold run converged, else
  a missing value. It then reports as critical threshold the lowest solar multiplier
  whose recorded temperature is below 273.15 K: the first such multiplier of the
  sweep, which is the lowest one because the sweep is increasing; nothing is reported
  when no recorded temperature is below 273.15 K. The sweep and the threshold search
  are stated for any list of multipliers and any series of recorded temperatures; the
  experiment is their instance at the 20 multipliers from 0.85 to 1.05.
\<close>

theorem snowball_experiment_sweep_and_threshold:
  "sweep_loop ms [] = map chosen_equilibrium ms
   \<and> chosen_equilibrium m =
       (if snd (find_equilibrium_temperature 288 m 1000 0.01)
        then Some (fst (find_equilibrium_temperature 288 m 1000 0.01))
        else if snd (find_equilibrium_temperature 230 m 1000 0.01)
        then Some (fst (find_equilibrium_temperature 230 m 1000 0.01))
        else None)
   \<and> (length temps = length ms \<and> sorted ms \<longrightarrow>
        (case critical_solar_multiplier ms temps of
           None \<Rightarrow> (\<forall>i<length ms. \<not> (\<exists>v. temps ! i = Some v \<and> v < 273.15))
         | Some c \<Rightarrow>
             (\<exists>i<length ms. c = ms ! i
                \<and> (\<exists>v. temps ! i = Some v \<and> v < 273.15)
                \<and> (\<forall>j<i. \<not> (\<exists>v. temps ! j = Some v \<and> v < 273.15))
                \<and> (\<forall>j<length ms. (\<exists>v. temps ! j = Some v \<and> v < 273.15) \<longrightarrow> c \<le> ms ! j))))
   \<and> fst run_snowball_experiment = map chosen_equilibrium (linspace 0.85 1.05 20)
   \<and> snd run_snowball_experiment
       = critical_solar_multiplier (linspace 0.85 1.05 20) (fst run_snowball_experiment)
   \<and> length (fst run_snowball_experiment) = length (linspace 0.85 1.05 20)
   \<and> sorted (linspace 0.85 1.05 20)"
proof -
  have sweep: "sweep_loop ms [] = map chosen_equilibrium ms"
    by (simp add: sweep_loop_map)
  have chosen: "chosen_equilibrium m =
       (if snd (find_equilibrium_temperature 288 m 1000 0.01)
        then Some (fst (find_equilibrium_temperature 288 m 1000 0.01))
        else if snd (find_equilibrium_temperature 230 m 1000 0.01)
        then Some (fst (find_equilibrium_temperature 230 m 1000 0.01))
        else None)"
    by (rule chosen_equilibrium_def)
  have threshold: "length temps = length ms \<and> sorted ms \<longrightarrow>
        (case critical_solar_multiplier ms temps of
           None \<Rightarrow> (\<forall>i<length ms. \<not> (\<exists>v. temps ! i = Some v \<and> v < 273.15))
         | Some c \<Rightarrow>
             (\<exists>i<length ms. c = ms ! i
                \<and> (\<exists>v. temps ! i = Some v \<and> v < 273.15)
                \<and> (\<forall>j<i. \<not> (\<exists>v. temps ! j = Some v \<and> v < 273.15))
                \<and> (\<forall>j<length ms. (\<exists>v. temps ! j = Some v \<and> v < 273.15) \<longrightarrow> c \<le> ms ! j)))"
    using critical_solar_multiplier_char [of temps ms] by blast
  have series: "fst run_snowball_experiment = map chosen_equilibrium (linspace 0.85 1.05 20)"
    by (simp add: run_snowball_experiment_def Let_def sweep_loop_map)
  have reported: "snd run_snowball_experiment
       = critical_solar_multiplier (linspace 0.85 1.05 20) (fst run_snowball_experiment)"
    by (simp add: run_snowball_experiment_def Let_def)
  have len: "length (fst run_snowball_experiment) = length (linspace 0.85 1.05 20)"
    unfolding series by simp
  have srt: "sorted (linspace 0.85 1.05 20)"
    by (rule linspace_sorted) simp
  from sweep chosen threshold series reported len srt show ?thesis
    by (intro conjI)
qed

theorem snowball_experiment_sweep_and_threshold_witness:
  "length [None, Some 260, Some 250 :: real option] = length [0.85, 0.95, 1.05 :: real]
   \<and> sorted [0.85, 0.95, 1.05 :: real]
   \<and> critical_solar_multiplier [0.85, 0.95, 1.05] [None, Some 260, Some 250] = Some 0.95
   \<and> [None, Some 260, Some 250] ! 2 = Some (250 :: real) \<and> (250 :: real) < 273.15
   \<and> (0.95 :: real) \<le> [0.85, 0.95, 1.05] ! 2"
proof -
  let ?ms = "[0.85, 0.95, 1.05 :: real]"
  let ?temps = "[None, Some 260, Some 250 :: real option]"
  have hyp: "length ?temps = length ?ms \<and> sorted ?ms" by simp
  have crit: "critical_solar_multiplier ?ms ?temps = Some 0.95"
    by (simp add: critical_solar_multiplier_def where_true_def less_nan_def upt_conv_Cons)
  have cold: "?temps ! 2 = Some (250 :: real) \<and> (250 :: real) < 273.15" by simp
  from snowball_experiment_sweep_and_threshold [of ?ms 1 ?temps] hyp
  have "case critical_solar_multiplier ?ms ?temps of
           None \<Rightarrow> (\<forall>i<length ?ms. \<not> (\<exists>v. ?temps ! i = Some v \<and> v < 273.15))
         | Some c \<Rightarrow>
             (\<exists>i<length ?ms. c = ?ms ! i
                \<and> (\<exists>v. ?temps ! i = Some v \<and> v < 273.15)
                \<and> (\<forall>j<i. \<not> (\<exists>v. ?temps ! j = Some v \<and> v < 273.15))
                \<and> (\<forall>j<length ?ms. (\<exists>v. ?temps ! j = Some v \<and> v < 273.15) \<longrightarrow> c \<le> ?ms ! j))"
    by blast
  then have "\<forall>j<length ?ms. (\<exists>v. ?temps ! j = Some v \<and> v < 273.15) \<longrightarrow> 0.95 \<le> ?ms ! j"
    unfolding crit by (simp only: option.case) blast
  moreover have "2 < length ?ms" by simp
  ultimately have "(\<exists>v. ?temps ! 2 = Some v \<and> v < 273.15) \<longrightarrow> 0.95 \<le> ?ms ! 2"
    by blast
  with cold have least: "0.95 \<le> ?ms ! 2" by blast
  from hyp crit cold least show ?thesis by (intro conjI) blast+
qed

section \<open>Convergence at present-day solar input\<close>

lemma greenhouse_effect_linear:
  assumes "150 \<le> T" "T \<le> 400"
  shows "greenhouse_effect T = 61 / 100 + (T - 5463 / 20) / 10000"
proof -
  define e where "e = 61 / 100 + (T - 5463 / 20) / 10000"
  have "1 / 2 \<le> e" "e \<le> 8 / 10" using assms unfolding e_def by argo+
  then have "clip e (1 / 2) (8 / 10) = e" by (rule clip_inside)
  moreover have "greenhouse_effect T = clip e (1 / 2) (8 / 10)"
    by (simp add: greenhouse_effect_def Let_def e_def)
  ultimately show ?thesis by (simp add: e_def)
qed

lemma energy_balance_unclipped:
  assumes "150 \<le> T" "T \<le> 400"
  shows "energy_balance T 1 = balance_unclipped T"
  unfolding energy_balance_def Let_def greenhouse_effect_linear [OF assms] albedo_formula
    balance_unclipped_def SOLAR_CONSTANT_def STEFAN_BOLTZMANN_def
  by simp

lemma balance_unclipped_deriv:
  "(balance_unclipped has_real_derivative balance_slope T) (at T)"
proof -
  define t where "t = tanh ((T - 5463 / 20) / 10)"
  define B where "B = 1 / 10000 * (567 / 10 ^ 10) * T ^ 4
             + (61 / 100 + (T - 5463 / 20) / 10000) * (567 / 10 ^ 10) * (4 * T ^ 3)"
  have d: "(balance_unclipped has_real_derivative
          (- (3 / 20 * (- ((1 - t\<^sup>2) * (1 / 10))))) * (1365 / 4) - B) (at T)"
    unfolding balance_unclipped_def [abs_def] t_def B_def
    by (auto intro!: derivative_eq_intros simp: field_simps)
  have s: "balance_slope T = 4095 / 800 * (1 - t\<^sup>2) - B"
    by (simp add: balance_slope_def t_def B_def)
  have e: "(- (3 / 20 * (- ((1 - t\<^sup>2) * (1 / 10))))) * (1365 / 4) - B
         = 4095 / 800 * (1 - t\<^sup>2) - B"
    by simp
  from d show ?thesis unfolding s e .
qed

lemma tanh_ge_three_quarters:
  assumes "7 \<le> exp (2 * x)"
  shows "3 / 4 \<le> tanh (x :: real)"
proof -
  define y where "y = exp (- 2 * x)"
  have ypos: "0 < y" by (simp add: y_def)
  have "y = 1 / exp (2 * x)" by (simp add: y_def exp_minus field_simps)
  also have "\<dots> \<le> 1 / 7" using assms by (simp add: field_simps)
  finally have "y \<le> 1 / 7" .
  then have "3 / 4 * (1 + y) \<le> 1 - y" by argo
  with ypos have "3 / 4 \<le> (1 - y) / (1 + y)" by (simp add: pos_le_divide_eq)
  then show ?thesis unfolding y_def tanh_real_altdef .
qed

lemma tanh_le_99:
  assumes "exp (2 * x) \<le> 199"
  shows "tanh (x :: real) \<le> 99 / 100"
proof -
  define y where "y = exp (- 2 * x)"
  have ypos: "0 < y" by (simp add: y_def)
  have "1 / 199 \<le> 1 / exp (2 * x)" using assms by (simp add: field_simps)
  also have "\<dots> = y" by (simp add: y_def exp_minus field_simps)
  finally have "1 / 199 \<le> y" .
  then have "1 - y \<le> 99 / 100 * (1 + y)" by argo
  with ypos have "(1 - y) / (1 + y) \<le> 99 / 100" by (simp add: pos_divide_le_eq)
  then show ?thesis unfolding y_def tanh_real_altdef .
qed

lemma exp_217_ge: "7 \<le> exp (217 / 100 :: real)"
proof -
  have "(7 :: real) \<le> (1 + (217 / 100) / of_nat 16) ^ 16"
    by (simp add: power_divide)
  also have "\<dots> \<le> exp (217 / 100)"
    by (rule exp_ge_one_plus_x_over_n_power_n) simp_all
  finally show ?thesis .
qed

lemma exp_297_le: "exp (297 / 100 :: real) \<le> 199"
proof -
  have "exp (297 / 100 :: real) \<le> exp 3" by simp
  also have "exp (3 :: real) = exp 1 ^ 3"
    using exp_of_nat_mult [of 3 "1 :: real"] by simp
  also have "\<dots> \<le> 3 ^ 3"
    using exp_bound [of 1] by (intro power_mono) simp_all
  also have "\<dots> \<le> (199 :: real)" by simp
  finally show ?thesis .
qed

lemma tanh_warm_lower:
  assumes "284 \<le> (T :: real)"
  shows "3 / 4 \<le> tanh ((T - 5463 / 20) / 10)"
proof -
  have "7 \<le> exp (2 * (217 / 200 :: real))" using exp_217_ge by simp
  then have "3 / 4 \<le> tanh (217 / 200 :: real)" by (rule tanh_ge_three_quarters)
  also have "\<dots> \<le> tanh ((T - 5463 / 20) / 10)" using assms by simp
  finally show ?thesis .
qed

lemma tanh_warm_upper:
  assumes "(T :: real) \<le> 288"
  shows "tanh ((T - 5463 / 20) / 10) \<le> 99 / 100"
proof -
  have "exp (2 * (297 / 200 :: real)) \<le> 199" using exp_297_le by simp
  then have le: "tanh (297 / 200 :: real) \<le> 99 / 100" by (rule tanh_le_99)
  have "tanh ((T - 5463 / 20) / 10) \<le> tanh (297 / 200 :: real)" using assms by simp
  also note le
  finally show ?thesis .
qed

lemma balance_unclipped_284: "0 < balance_unclipped 284"
proof -
  define t where "t = tanh ((284 - 5463 / 20) / 10 :: real)"
  have t: "3 / 4 \<le> t" unfolding t_def by (rule tanh_warm_lower) simp
  have v: "(61 / 100 + (284 - 5463 / 20) / 10000) * (567 / 10 ^ 10) * 284 ^ 4
           \<le> (226 :: real)"
    by simp
  have "balance_unclipped 284 = (7 / 10 - 3 / 20 * (1 - t)) * (1365 / 4)
          - (61 / 100 + (284 - 5463 / 20) / 10000) * (567 / 10 ^ 10) * 284 ^ 4"
    by (simp only: balance_unclipped_def t_def)
  moreover have "226 < (7 / 10 - 3 / 20 * (1 - t)) * (1365 / 4)"
    using t by argo
  ultimately show ?thesis using v by linarith
qed

lemma balance_unclipped_288: "balance_unclipped 288 < 0"
proof -
  define t where "t = tanh ((288 - 5463 / 20) / 10 :: real)"
  have t: "t \<le> 99 / 100" unfolding t_def by (rule tanh_warm_upper) simp
  have v: "(2385 / 10 :: real)
           \<le> (61 / 100 + (288 - 5463 / 20) / 10000) * (567 / 10 ^ 10) * 288 ^ 4"
    by simp
  have "balance_unclipped 288 = (7 / 10 - 3 / 20 * (1 - t)) * (1365 / 4)
          - (61 / 100 + (288 - 5463 / 20) / 10000) * (567 / 10 ^ 10) * 288 ^ 4"
    by (simp only: balance_unclipped_def t_def)
  moreover have "(7 / 10 - 3 / 20 * (1 - t)) * (1365 / 4) < 2385 / 10"
    using t by argo
  ultimately show ?thesis using v by linarith
qed

lemma emission_slope_lower:
  assumes "284 \<le> (T :: real)"
  shows "3 \<le> 1 / 10000 * (567 / 10 ^ 10) * T ^ 4
        + (61 / 100 + (T - 5463 / 20) / 10000) * (567 / 10 ^ 10) * (4 * T ^ 3)"
proof -
  have p4: "(284 :: real) ^ 4 \<le> T ^ 4" using assms by (intro power_mono) simp_all
  have p3: "(284 :: real) ^ 3 \<le> T ^ 3" using assms by (intro power_mono) simp_all
  have e: "(61 / 100 :: real) \<le> 61 / 100 + (T - 5463 / 20) / 10000" using assms by simp
  have "(61 / 100 :: real) * 284 ^ 3 \<le> (61 / 100 + (T - 5463 / 20) / 10000) * T ^ 3"
    using e p3 by (intro mult_mono) simp_all
  then have a: "(61 / 100 :: real) * 284 ^ 3 * (567 / 10 ^ 10 * 4)
                \<le> (61 / 100 + (T - 5463 / 20) / 10000) * T ^ 3 * (567 / 10 ^ 10 * 4)"
    by (intro mult_right_mono) simp_all
  have b: "(0 :: real) \<le> 1 / 10000 * (567 / 10 ^ 10) * T ^ 4" by simp
  have c: "(3 :: real) \<le> 61 / 100 * 284 ^ 3 * (567 / 10 ^ 10 * 4)" by simp
  have d: "(61 / 100 + (T - 5463 / 20) / 10000) * (567 / 10 ^ 10) * (4 * T ^ 3)
           = (61 / 100 + (T - 5463 / 20) / 10000) * T ^ 3 * (567 / 10 ^ 10 * 4)"
    by (simp only: mult.assoc mult.left_commute mult.commute)
  from a b c show ?thesis unfolding d by linarith
qed

lemma emission_slope_upper:
  assumes "0 \<le> (T :: real)" "T \<le> 288"
  shows "1 / 10000 * (567 / 10 ^ 10) * T ^ 4
        + (61 / 100 + (T - 5463 / 20) / 10000) * (567 / 10 ^ 10) * (4 * T ^ 3) \<le> 4"
proof -
  have p4: "T ^ 4 \<le> (288 :: real) ^ 4" using assms by (intro power_mono) simp_all
  have p3: "T ^ 3 \<le> (288 :: real) ^ 3" using assms by (intro power_mono) simp_all
  have e: "61 / 100 + (T - 5463 / 20) / 10000 \<le> (62 / 100 :: real)" using assms by argo
  have "(61 / 100 + (T - 5463 / 20) / 10000) * T ^ 3 \<le> (62 / 100 :: real) * 288 ^ 3"
    using e p3 assms by (intro mult_mono) simp_all
  then have a: "(61 / 100 + (T - 5463 / 20) / 10000) * T ^ 3 * (567 / 10 ^ 10 * 4)
                \<le> (62 / 100 :: real) * 288 ^ 3 * (567 / 10 ^ 10 * 4)"
    by (intro mult_right_mono) simp_all
  have "T ^ 4 * (1 / 10000 * (567 / 10 ^ 10)) \<le> (288 :: real) ^ 4 * (1 / 10000 * (567 / 10 ^ 10))"
    using p4 by (intro mult_right_mono) simp_all
  then have b: "1 / 10000 * (567 / 10 ^ 10) * T ^ 4
                \<le> (288 :: real) ^ 4 * (1 / 10000 * (567 / 10 ^ 10))"
    by (simp only: mult.commute)
  have c: "(288 :: real) ^ 4 * (1 / 10000 * (567 / 10 ^ 10))
           + 62 / 100 * 288 ^ 3 * (567 / 10 ^ 10 * 4) \<le> 4"
    by simp
  have d: "(61 / 100 + (T - 5463 / 20) / 10000) * (567 / 10 ^ 10) * (4 * T ^ 3)
           = (61 / 100 + (T - 5463 / 20) / 10000) * T ^ 3 * (567 / 10 ^ 10 * 4)"
    by (simp only: mult.assoc mult.left_commute mult.commute)
  from a b c show ?thesis unfolding d by linarith
qed

lemma balance_slope_upper:
  assumes "284 \<le> T"
  shows "balance_slope T \<le> - (1 / 2)"
proof -
  define t where "t = tanh ((T - 5463 / 20) / 10)"
  have t: "3 / 4 \<le> t" unfolding t_def using assms by (rule tanh_warm_lower)
  then have "(3 / 4)\<^sup>2 \<le> t\<^sup>2" by (intro power_mono) simp_all
  then have "4095 / 800 * (1 - t\<^sup>2) \<le> 5 / 2" by (simp add: power2_eq_square)
  with emission_slope_lower [OF assms] show ?thesis
    unfolding balance_slope_def t_def [symmetric] by linarith
qed

lemma balance_slope_lower:
  assumes "284 \<le> T" "T \<le> 288"
  shows "- 4 \<le> balance_slope T"
proof -
  define t where "t = tanh ((T - 5463 / 20) / 10)"
  have "\<bar>t\<bar> < 1" unfolding t_def using tanh_real_bounds [of "(T - 5463 / 20) / 10"]
    by (simp add: abs_less_iff)
  then have "t\<^sup>2 < 1" by (simp add: abs_square_less_1)
  then have "0 \<le> 4095 / 800 * (1 - t\<^sup>2)" by simp
  moreover have "0 \<le> T" using assms by simp
  ultimately show ?thesis using emission_slope_upper [OF _ assms(2)]
    unfolding balance_slope_def t_def [symmetric] by linarith
qed

lemma balance_unclipped_decrease:
  assumes "284 \<le> x" "x \<le> y"
  shows "balance_unclipped y - balance_unclipped x \<le> - ((y - x) / 2)"
proof -
  have "(\<lambda>T. balance_unclipped T + T / 2) y \<le> (\<lambda>T. balance_unclipped T + T / 2) x"
  proof (rule DERIV_nonpos_imp_nonincreasing [OF assms(2)])
    fix z assume z: "x \<le> z" "z \<le> y"
    have "((\<lambda>T. balance_unclipped T + T / 2) has_real_derivative balance_slope z + 1 / 2) (at z)"
      by (auto intro!: derivative_eq_intros balance_unclipped_deriv)
    moreover have "balance_slope z + 1 / 2 \<le> 0"
      using balance_slope_upper [of z] assms(1) z(1) by simp
    ultimately show "\<exists>d. ((\<lambda>T. balance_unclipped T + T / 2) has_real_derivative d) (at z) \<and> d \<le> 0"
      by blast
  qed
  then show ?thesis by argo
qed

lemma balance_unclipped_decrease_bounded:
  assumes "284 \<le> x" "x \<le> y" "y \<le> 288"
  shows "- (4 * (y - x)) \<le> balance_unclipped y - balance_unclipped x"
proof -
  have "(\<lambda>T. balance_unclipped T + 4 * T) x \<le> (\<lambda>T. balance_unclipped T + 4 * T) y"
  proof (rule DERIV_nonneg_imp_nondecreasing [OF assms(2)])
    fix z assume z: "x \<le> z" "z \<le> y"
    have "((\<lambda>T. balance_unclipped T + 4 * T) has_real_derivative balance_slope z + 4) (at z)"
      by (auto intro!: derivative_eq_intros balance_unclipped_deriv)
    moreover have "0 \<le> balance_slope z + 4"
      using balance_slope_lower [of z] assms(1,3) z by simp
    ultimately show "\<exists>d. ((\<lambda>T. balance_unclipped T + 4 * T) has_real_derivative d) (at z) \<and> 0 \<le> d"
      by blast
  qed
  then show ?thesis by argo
qed

lemma warm_equilibrium_exists:
  "\<exists>Teq. 284 < Teq \<and> Teq < 288 \<and> balance_unclipped Teq = 0"
proof -
  have "\<exists>x. 284 \<le> x \<and> x \<le> 288 \<and> balance_unclipped x = 0"
  proof (rule IVT2)
    show "balance_unclipped 288 \<le> 0" using balance_unclipped_288 by simp
    show "0 \<le> balance_unclipped 284" using balance_unclipped_284 by simp
    show "(284 :: real) \<le> 288" by simp
    show "\<forall>x. 284 \<le> x \<and> x \<le> 288 \<longrightarrow> isCont balance_unclipped x"
      using DERIV_isCont [OF balance_unclipped_deriv] by blast
  qed
  then obtain x where x: "284 \<le> x" "x \<le> 288" "balance_unclipped x = 0" by blast
  from x(3) balance_unclipped_284 have "x \<noteq> 284" by auto
  moreover from x(3) balance_unclipped_288 have "x \<noteq> 288" by auto
  ultimately show ?thesis using x by (intro exI [of _ x]) simp
qed

lemma warm_equilibrium_unique:
  assumes a: "284 \<le> a" "balance_unclipped a = 0"
    and b: "284 \<le> b" "balance_unclipped b = 0"
  shows "a = b"
proof (rule ccontr)
  assume ne: "a \<noteq> b"
  show False
  proof (cases "a < b")
    case True
    with balance_unclipped_decrease [of a b] a b show False by simp
  next
    case False
    with ne have "b < a" by simp
    with balance_unclipped_decrease [of b a] a b show False by simp
  qed
qed

lemma warm_step:
  assumes eq: "284 \<le> Teq" "balance_unclipped Teq = 0"
    and T: "Teq \<le> T" "T \<le> 288"
  shows "Teq \<le> solver_step 1 T" "solver_step 1 T \<le> 288"
    and "solver_step 1 T - Teq \<le> 19 / 20 * (T - Teq)"
    and "\<bar>energy_balance T 1\<bar> \<le> 4 * (T - Teq)"
    and "(T - Teq) / 2 \<le> \<bar>energy_balance T 1\<bar>"
proof -
  have range: "150 \<le> T" "T \<le> 400" using eq(1) T by simp_all
  have F: "energy_balance T 1 = balance_unclipped T"
    using range by (rule energy_balance_unclipped)
  have up: "balance_unclipped T \<le> - ((T - Teq) / 2)"
    using balance_unclipped_decrease [OF eq(1) T(1)] eq(2) by simp
  have lo: "- (4 * (T - Teq)) \<le> balance_unclipped T"
    using balance_unclipped_decrease_bounded [OF eq(1) T(1) T(2)] eq(2) by simp
  define T' where "T' = T + 0.1 * energy_balance T 1"
  have T'lo: "Teq \<le> T'" using lo T(1) unfolding T'_def F by argo
  have T'hi: "T' \<le> T" using up T(1) unfolding T'_def F by argo
  have "clip T' 150 400 = T'"
    using T'lo T'hi eq(1) T(2) by (intro clip_inside) simp_all
  then have step: "solver_step 1 T = T'" by (simp add: solver_step_def T'_def)
  show "Teq \<le> solver_step 1 T" unfolding step by (rule T'lo)
  show "solver_step 1 T \<le> 288" unfolding step using T'hi T(2) by simp
  show "solver_step 1 T - Teq \<le> 19 / 20 * (T - Teq)"
    unfolding step T'_def F using up by argo
  show "\<bar>energy_balance T 1\<bar> \<le> 4 * (T - Teq)"
    unfolding F abs_le_iff using lo up T(1) by argo
  show "(T - Teq) / 2 \<le> \<bar>energy_balance T 1\<bar>"
    unfolding F using up T(1) by (simp add: abs_if; argo)
qed

lemma warm_iterate:
  assumes eq: "284 \<le> Teq" "Teq \<le> 288" "balance_unclipped Teq = 0"
  shows "Teq \<le> (solver_step 1 ^^ k) 288 \<and> (solver_step 1 ^^ k) 288 \<le> 288
         \<and> (solver_step 1 ^^ k) 288 - Teq \<le> (19 / 20) ^ k * 4"
proof (induction k)
  case 0
  show ?case using eq by simp
next
  case (Suc k)
  define T where "T = (solver_step 1 ^^ k) 288"
  from Suc.IH have T: "Teq \<le> T" "T \<le> 288" and d: "T - Teq \<le> (19 / 20) ^ k * 4"
    by (simp_all add: T_def)
  have s: "(solver_step 1 ^^ Suc k) 288 = solver_step 1 T" by (simp add: T_def)
  from warm_step(3) [OF eq(1) eq(3) T] d
  have "solver_step 1 T - Teq \<le> 19 / 20 * ((19 / 20) ^ k * 4)" by simp
  then have "solver_step 1 T - Teq \<le> (19 / 20) ^ Suc k * 4" by simp
  with warm_step(1,2) [OF eq(1) eq(3) T] show ?case unfolding s by simp
qed

lemma solver_loop_step:
  "\<not> \<bar>energy_balance T m\<bar> < tol \<Longrightarrow>
   solver_loop (Suc n) 0.1 T m tol = solver_loop n 0.1 (solver_step m T) m tol"
  by (simp add: solver_step_def)

lemma solver_loop_flag:
  "k < n \<Longrightarrow> \<bar>energy_balance ((solver_step m ^^ k) T) m\<bar> < tol \<Longrightarrow>
   snd (solver_loop n 0.1 T m tol)"
proof (induction n arbitrary: k T)
  case 0
  then show ?case by simp
next
  case (Suc n)
  show ?case
  proof (cases "\<bar>energy_balance T m\<bar> < tol")
    case True
    then show ?thesis by simp
  next
    case False
    with Suc.prems(2) have "k \<noteq> 0" by (intro notI) simp
    then obtain j where j: "k = Suc j" by (cases k) simp_all
    with Suc.prems have "j < n"
      and "\<bar>energy_balance ((solver_step m ^^ j) (solver_step m T)) m\<bar> < tol"
      by (simp_all add: funpow_swap1)
    then have "snd (solver_loop n 0.1 (solver_step m T) m tol)" by (rule Suc.IH)
    then show ?thesis unfolding solver_loop_step [OF False] .
  qed
qed

lemma solver_loop_result:
  "\<exists>j\<le>n. fst (solver_loop n 0.1 T m tol) = (solver_step m ^^ j) T
         \<and> (snd (solver_loop n 0.1 T m tol)
              \<longrightarrow> \<bar>energy_balance ((solver_step m ^^ j) T) m\<bar> < tol)"
proof (induction n arbitrary: T)
  case 0
  show ?case by simp
next
  case (Suc n)
  show ?case
  proof (cases "\<bar>energy_balance T m\<bar> < tol")
    case True
    then show ?thesis by (intro exI [of _ 0]) simp
  next
    case False
    from Suc.IH [of "solver_step m T"] obtain j where j: "j \<le> n"
      "fst (solver_loop n 0.1 (solver_step m T) m tol) = (solver_step m ^^ j) (solver_step m T)"
      "snd (solver_loop n 0.1 (solver_step m T) m tol)
         \<longrightarrow> \<bar>energy_balance ((solver_step m ^^ j) (solver_step m T)) m\<bar> < tol"
      by blast
    have sw: "(solver_step m ^^ Suc j) T = (solver_step m ^^ j) (solver_step m T)"
      by (simp add: funpow_swap1)
    from j show ?thesis
      unfolding solver_loop_step [OF False]
      by (intro exI [of _ "Suc j"]) (simp only: sw Suc_le_mono simp_thms)
  qed
qed

lemma power_19_20_200: "(19 / 20 :: real) ^ 200 * 16 < 1 / 100"
  by (simp add: power_divide)

text \<open>
  Claim C9. Started at 288 K with solar multiplier 1 and the defaults of 1000
  iterations and tolerance 0.01, the solver returns \<open>converged = True\<close> and a temperature
  within 1 K of the stable warm equilibrium. That equilibrium is a zero of the energy
  balance at solar multiplier 1 between 284 K and 288 K; it is stable, the balance
  being positive from 284 K up to it and negative from it up to the solver's upper
  bound of 400 K, and so it is the only zero in that range.
\<close>

theorem find_equilibrium_temperature_present_day:
  "\<exists>Teq. 284 < Teq \<and> Teq < 288 \<and> energy_balance Teq 1 = 0
     \<and> (\<forall>T. 284 \<le> T \<and> T < Teq \<longrightarrow> 0 < energy_balance T 1)
     \<and> (\<forall>T. Teq < T \<and> T \<le> 400 \<longrightarrow> energy_balance T 1 < 0)
     \<and> (\<forall>T. 284 \<le> T \<and> T \<le> 400 \<and> energy_balance T 1 = 0 \<longrightarrow> T = Teq)
     \<and> snd (find_equilibrium_temperature 288 1 1000 0.01)
     \<and> \<bar>fst (find_equilibrium_temperature 288 1 1000 0.01) - Teq\<bar> < 1"
proof -
  from warm_equilibrium_exists obtain Teq
    where Teq: "284 < Teq" "Teq < 288" "balance_unclipped Teq = 0" by blast
  then have eq: "284 \<le> Teq" "Teq \<le> 288" by simp_all
  have root: "energy_balance Teq 1 = 0"
    using energy_balance_unclipped [of Teq] Teq by simp
  have below: "0 < energy_balance T 1" if "284 \<le> T \<and> T < Teq" for T
  proof -
    from that Teq(2) have "energy_balance T 1 = balance_unclipped T"
      by (intro energy_balance_unclipped) simp_all
    moreover from that balance_unclipped_decrease [of T Teq] Teq(3)
    have "0 < balance_unclipped T" by (simp; argo)
    ultimately show ?thesis by simp
  qed
  have above: "energy_balance T 1 < 0" if "Teq < T \<and> T \<le> 400" for T
  proof -
    from that Teq(1) have "energy_balance T 1 = balance_unclipped T"
      by (intro energy_balance_unclipped) simp_all
    moreover have "balance_unclipped T - balance_unclipped Teq \<le> - ((T - Teq) / 2)"
      using that eq(1) by (intro balance_unclipped_decrease) simp_all
    then have "balance_unclipped T < 0" using that Teq(3) by argo
    ultimately show ?thesis by simp
  qed
  have unique: "T = Teq" if "284 \<le> T \<and> T \<le> 400 \<and> energy_balance T 1 = 0" for T
  proof (rule ccontr)
    assume "T \<noteq> Teq"
    then consider "T < Teq" | "Teq < T" by linarith
    then show False
    proof cases
      case 1
      with that below [of T] show False by simp
    next
      case 2
      with that above [of T] show False by simp
    qed
  qed
  define r where "r = solver_loop (nat 1000) 0.1 288 1 0.01"
  have r: "find_equilibrium_temperature 288 1 1000 0.01 = r"
    by (simp add: find_equilibrium_temperature_def r_def)
  define T200 where "T200 = (solver_step 1 ^^ 200) 288"
  have it: "Teq \<le> T200" "T200 \<le> 288" "T200 - Teq \<le> (19 / 20) ^ 200 * 4"
    using warm_iterate [OF eq Teq(3), of 200] by (simp_all add: T200_def)
  have "\<bar>energy_balance T200 1\<bar> \<le> 4 * (T200 - Teq)"
    by (rule warm_step(4) [OF eq(1) Teq(3) it(1) it(2)])
  also have "\<dots> \<le> (19 / 20) ^ 200 * 16" using it(3) by simp
  also have "\<dots> < 1 / 100" by (rule power_19_20_200)
  finally have small: "\<bar>energy_balance ((solver_step 1 ^^ 200) 288) 1\<bar> < 0.01"
    by (simp add: T200_def)
  have flag: "snd r"
    unfolding r_def by (rule solver_loop_flag [OF _ small]) simp
  from solver_loop_result [of "nat 1000" 288 1 "0.01"] obtain j where
    j: "fst r = (solver_step 1 ^^ j) 288"
       "snd r \<longrightarrow> \<bar>energy_balance ((solver_step 1 ^^ j) 288) 1\<bar> < 0.01"
    unfolding r_def by blast
  define Tj where "Tj = (solver_step 1 ^^ j) 288"
  have Tj: "Teq \<le> Tj" "Tj \<le> 288"
    using warm_iterate [OF eq Teq(3), of j] by (simp_all add: Tj_def)
  have "(Tj - Teq) / 2 \<le> \<bar>energy_balance Tj 1\<bar>"
    by (rule warm_step(5) [OF eq(1) Teq(3) Tj])
  also have "\<dots> < 0.01" using j(2) flag by (simp add: Tj_def)
  finally have "Tj - Teq < 1" by simp
  with Tj(1) have close: "\<bar>fst r - Teq\<bar> < 1" by (simp add: j(1) Tj_def)
  from Teq(1,2) root below above unique flag close show ?thesis
    unfolding r by (intro exI [of _ Teq] conjI allI impI) blast+
qed

theorem find_equilibrium_temperature_present_day_witness:
  "0 < energy_balance 284 1 \<and> energy_balance 288 1 < 0
   \<and> snd (find_equilibrium_temperature 288 1 1000 0.01)
   \<and> 283 < fst (find_equilibrium_temperature 288 1 1000 0.01)
   \<and> fst (find_equilibrium_temperature 288 1 1000 0.01) < 289"
proof -
  from find_equilibrium_temperature_present_day obtain Teq where
    Teq: "284 < Teq" "Teq < 288"
    and below: "\<forall>T. 284 \<le> T \<and> T < Teq \<longrightarrow> 0 < energy_balance T 1"
    and above: "\<forall>T. Teq < T \<and> T \<le> 400 \<longrightarrow> energy_balance T 1 < 0"
    and conv: "snd (find_equilibrium_temperature 288 1 1000 0.01)"
    and close: "\<bar>fst (find_equilibrium_temperature 288 1 1000 0.01) - Teq\<bar> < 1"
    by blast
  from Teq(1) have "(284 :: real) \<le> 284 \<and> 284 < Teq" by simp
  with below have lo: "0 < energy_balance 284 1" by blast
  from Teq(2) have "Teq < 288 \<and> (288 :: real) \<le> 400" by simp
  with above have hi: "energy_balance 288 1 < 0" by blast
  from Teq close have "283 < fst (find_equilibrium_temperature 288 1 1000 0.01)
      \<and> fst (find_equilibrium_temperature 288 1 1000 0.01) < 289"
    by (simp add: abs_less_iff)
  with lo hi conv show ?thesis by blast
qed

end
